theory Spec2Isabelle
  imports Main
begin

section \<open>Python values, errors and generators\<close>

text \<open>
  The development embeds \<^verbatim>\<open>urls/section.py\<close>: the classes \<^verbatim>\<open>Section\<close>, \<^verbatim>\<open>Options\<close>,
  \<^verbatim>\<open>Values\<close> and \<^verbatim>\<open>Menu\<close>. Python objects are mutable and have identity, so they live in
  a store: an object is an address (an index into the heap of its class) and every method
  takes the store and returns the store it leaves behind.

  An exception is a value of \<open>error\<close>. A generator is the list of what it yields together
  with the exception that ended it, if one did.
\<close>

datatype error = ValueError | NameError | AttributeError | TypeError

type_synonym ref = nat

type_synonym 'a gen = "'a list \<times> error option"

text \<open>
  A module or class object is known by its attributes only; \<open>kls\<close> and \<open>module\<close> of an
  \<^verbatim>\<open>Options\<close> are \<^verbatim>\<open>None\<close>, a string or such an object.
\<close>

datatype pyobj = PyObj "(string \<times> pyobj) list"

datatype pyval = PNone | PStr string | PObj pyobj

text \<open>
  \<open>condition\<close> is a value or a callable (given by what the call returns); \<open>redirect\<close>
  likewise; \<open>target\<close> is a plain function (\<^verbatim>\<open>FunctionType\<close>, known by its name) or any
  other value.
\<close>

datatype condition_t = Cond bool | CondCallable bool

datatype redirect_t = Redirect pyval | RedirectCallable pyval

datatype target_t = Target pyval | TargetFunction string

subsection \<open>The three classes\<close>

text \<open>
  \<^verbatim>\<open>Options.__init__\<close> stores each of its thirteen arguments under its own name. The
  fields \<open>alias\<close> and \<open>values\<close> carry a prime here. \<open>values'\<close> holds the address of a
  \<^verbatim>\<open>Values\<close> object.
\<close>

record Options =
  active :: bool
  exists :: bool
  display :: bool
  showBase :: bool
  alias' :: "string option"
  match :: "string option"
  values' :: "ref option"
  kls :: pyval
  module :: pyval
  target :: target_t
  redirect :: redirect_t
  condition :: condition_t
  extraContext :: "(string \<times> pyval) list option"

text \<open>The defaults of \<^verbatim>\<open>Options.__init__\<close>.\<close>

definition Options_init :: Options where
  "Options_init =
     \<lparr> active = True, exists = True, display = True, showBase = True,
       alias' = None, match = None, values' = None,
       kls = PStr ''Views'', module = PNone, target = Target (PStr ''base''),
       redirect = Redirect PNone, condition = Cond False, extraContext = None \<rparr>"

text \<open>
  \<^verbatim>\<open>Values\<close>: \<open>vvalues\<close> is a list or a function of the path, \<open>each\<close> maps a path and a
  value to the pair (alias, url part), \<open>sorter\<close> is absent, a truthy non-callable or a
  comparison function.
\<close>

datatype values_t = ValuesList "string list" | ValuesCallable "string list \<Rightarrow> string list"

datatype sorter_t = SorterNone | SorterTrue | SorterCmp "string \<Rightarrow> string \<Rightarrow> int"

record Values =
  vvalues :: values_t
  each :: "(string list \<Rightarrow> string \<Rightarrow> string \<times> string) option"
  asSet :: bool
  sorter :: sorter_t
  sortWithAlias :: bool

text \<open>
  \<^verbatim>\<open>Section.__init__\<close> sets \<^verbatim>\<open>url\<close>, \<^verbatim>\<open>name\<close>, \<^verbatim>\<open>parent\<close>, \<^verbatim>\<open>_options = None\<close>,
  \<^verbatim>\<open>children = []\<close> and \<^verbatim>\<open>_pattern = None\<close>. The attribute \<^verbatim>\<open>pattern\<close> does not exist
  until \<^verbatim>\<open>getPattern\<close> assigns it. The two private attributes are \<open>priv_options\<close> and
  \<open>priv_pattern\<close> here.
\<close>

record Section =
  url :: string
  name :: "string option"
  parent :: "ref option"
  priv_options :: "ref option"
  children :: "ref list"
  priv_pattern :: "string list option"
  pattern :: "string list option"

record store =
  sec_heap :: "Section list"
  opt_heap :: "Options list"
  val_heap :: "Values list"

definition empty_store :: store where
  "empty_store = \<lparr> sec_heap = [], opt_heap = [], val_heap = [] \<rparr>"

subsection \<open>Truthiness and strings\<close>

text \<open>\<^verbatim>\<open>if x:\<close> on a string or list that may be \<^verbatim>\<open>None\<close>: false on \<^verbatim>\<open>None\<close> and on empty.\<close>

fun truthy :: "'a list option \<Rightarrow> bool" where
  "truthy None = False"
| "truthy (Some xs) = (xs \<noteq> [])"

text \<open>\<^verbatim>\<open>sep.join(xs)\<close>.\<close>

fun join :: "string \<Rightarrow> string list \<Rightarrow> string" where
  "join sep [] = []"
| "join sep [x] = x"
| "join sep (x # y # ys) = x @ sep @ join sep (y # ys)"

text \<open>
  \<^verbatim>\<open>regexes['multiSlash'].sub('/', s)\<close> with the expression \<^verbatim>\<open>/+\<close>: scanning from the left,
  each maximal run of slashes is one match and is replaced by one slash; every other
  character is copied.
\<close>

function multiSlash_sub :: "string \<Rightarrow> string" where
  "multiSlash_sub [] = []"
| "multiSlash_sub (c # cs) =
     (if c = CHR ''/'' then CHR ''/'' # multiSlash_sub (dropWhile (\<lambda>d. d = CHR ''/'') cs)
      else c # multiSlash_sub cs)"
  by pat_completeness auto
termination
  by (relation "measure length") (auto simp: less_Suc_eq_le length_dropWhile_le)

text \<open>\<^verbatim>\<open>s.startswith('.')\<close>, \<^verbatim>\<open>s.endswith(c)\<close> and \<^verbatim>\<open>s.split('.')\<close>.\<close>

definition startswith :: "string \<Rightarrow> char \<Rightarrow> bool" where
  "startswith s c = (case s of [] \<Rightarrow> False | x # _ \<Rightarrow> x = c)"

definition endswith :: "string \<Rightarrow> char \<Rightarrow> bool" where
  "endswith s c = (case rev s of [] \<Rightarrow> False | x # _ \<Rightarrow> x = c)"

fun split :: "char \<Rightarrow> string \<Rightarrow> string list" where
  "split c [] = [[]]"
| "split c (x # xs) =
     (if x = c then [] # split c xs
      else (case split c xs of [] \<Rightarrow> [[x]] | w # ws \<Rightarrow> (x # w) # ws))"

text \<open>\<^verbatim>\<open>s.capitalize()\<close> on ASCII: the first character upper case, the others lower case.\<close>

definition upper :: "char \<Rightarrow> char" where
  "upper c =
     (case map_of (zip ''abcdefghijklmnopqrstuvwxyz'' ''ABCDEFGHIJKLMNOPQRSTUVWXYZ'') c of
        Some u \<Rightarrow> u | None \<Rightarrow> c)"

definition lower :: "char \<Rightarrow> char" where
  "lower c =
     (case map_of (zip ''ABCDEFGHIJKLMNOPQRSTUVWXYZ'' ''abcdefghijklmnopqrstuvwxyz'') c of
        Some l \<Rightarrow> l | None \<Rightarrow> c)"

definition capitalize :: "string \<Rightarrow> string" where
  "capitalize s = (case s of [] \<Rightarrow> [] | c # cs \<Rightarrow> upper c # map lower cs)"

section \<open>Section: selection\<close>

text \<open>
  \<^verbatim>\<open>Section.determineSelection(self, path, parentSelected, url=None)\<close>. Only \<^verbatim>\<open>self.url\<close> is
  read, so the method is a function of the section's record. \<^verbatim>\<open>not url\<close> holds for
  \<^verbatim>\<open>None\<close> and for the empty string.
\<close>

definition determineSelection ::
  "Section \<Rightarrow> string list \<Rightarrow> bool \<Rightarrow> string option \<Rightarrow> bool \<times> string list" where
  "determineSelection self path parentSelected url_arg =
     (if \<not> parentSelected \<or> path = [] then (False, [])
      else
        (let u = (if \<not> truthy url_arg then url self else the url_arg);
             selected = (hd path = u)
         in if selected then (selected, tl path) else (False, [])))"

text \<open>The url a call compares with: the argument, or the node's own url when the
  argument is absent or empty.\<close>

definition effective_url :: "Section \<Rightarrow> string option \<Rightarrow> string" where
  "effective_url self url_arg =
     (case url_arg of None \<Rightarrow> url self | Some u \<Rightarrow> if u = [] then url self else u)"

section \<open>Options\<close>

text \<open>
  Keyword arguments of \<^verbatim>\<open>clone\<close> and \<^verbatim>\<open>update\<close>: for each of the thirteen names the value
  passed, if the name was passed, and the other names passed (\<open>kw_other\<close>).
\<close>

record kwargs =
  kw_active :: "bool option"
  kw_exists :: "bool option"
  kw_display :: "bool option"
  kw_showBase :: "bool option"
  kw_alias :: "string option option"
  kw_match :: "string option option"
  kw_values :: "ref option option"
  kw_kls :: "pyval option"
  kw_module :: "pyval option"
  kw_target :: "target_t option"
  kw_redirect :: "redirect_t option"
  kw_condition :: "condition_t option"
  kw_extraContext :: "(string \<times> pyval) list option option"
  kw_other :: "string list"

definition no_kwargs :: kwargs where
  "no_kwargs =
     \<lparr> kw_active = None, kw_exists = None, kw_display = None, kw_showBase = None,
       kw_alias = None, kw_match = None, kw_values = None, kw_kls = None, kw_module = None,
       kw_target = None, kw_redirect = None, kw_condition = None, kw_extraContext = None,
       kw_other = [] \<rparr>"

text \<open>One entry of \<^verbatim>\<open>settings.update(kwargs)\<close>: the value passed, else the current one.\<close>

definition override :: "'a option \<Rightarrow> 'a \<Rightarrow> 'a" where
  "override new cur = (case new of None \<Rightarrow> cur | Some v \<Rightarrow> v)"

definition apply_kwargs :: "kwargs \<Rightarrow> Options \<Rightarrow> Options" where
  "apply_kwargs kw opts =
     \<lparr> active = override (kw_active kw) (active opts),
       exists = override (kw_exists kw) (exists opts),
       display = override (kw_display kw) (display opts),
       showBase = override (kw_showBase kw) (showBase opts),
       alias' = override (kw_alias kw) (alias' opts),
       match = override (kw_match kw) (match opts),
       values' = override (kw_values kw) (values' opts),
       kls = override (kw_kls kw) (kls opts),
       module = override (kw_module kw) (module opts),
       target = override (kw_target kw) (target opts),
       redirect = override (kw_redirect kw) (redirect opts),
       condition = override (kw_condition kw) (condition opts),
       extraContext = override (kw_extraContext kw) (extraContext opts) \<rparr>"

text \<open>
  \<^verbatim>\<open>Options(**kwargs)\<close>: a new object with the defaults of \<^verbatim>\<open>__init__\<close> but for the
  keywords passed; a keyword that \<^verbatim>\<open>__init__\<close> does not have is a \<^verbatim>\<open>TypeError\<close>.
\<close>

definition Options_new :: "store \<Rightarrow> kwargs \<Rightarrow> error + (ref \<times> store)" where
  "Options_new st kw =
     (if kw_other kw \<noteq> [] then Inl TypeError
      else Inr (length (opt_heap st), st\<lparr>opt_heap := opt_heap st @ [apply_kwargs kw Options_init]\<rparr>))"

text \<open>
  \<^verbatim>\<open>Options.clone(self, **kwargs)\<close>: the current value of every name of \<^verbatim>\<open>self.args\<close>,
  updated with the keywords, given to \<^verbatim>\<open>Options(**settings)\<close>, which allocates a new object
  and refuses a keyword it does not know with a \<^verbatim>\<open>TypeError\<close>. The values are passed as they
  are: a \<^verbatim>\<open>Values\<close> object goes over as its address.
\<close>

definition clone :: "store \<Rightarrow> ref \<Rightarrow> kwargs \<Rightarrow> error + (ref \<times> store)" where
  "clone st self kw =
     (if kw_other kw \<noteq> [] then Inl TypeError
      else
        (let settings = apply_kwargs kw (opt_heap st ! self);
             new = length (opt_heap st)
         in Inr (new, st\<lparr>opt_heap := opt_heap st @ [settings]\<rparr>)))"

text \<open>
  \<^verbatim>\<open>Options.update(self, **kwargs)\<close>: \<^verbatim>\<open>setattr\<close> on the object itself. A name outside the
  thirteen becomes a new attribute, which nothing here reads.
\<close>

definition update :: "store \<Rightarrow> ref \<Rightarrow> kwargs \<Rightarrow> store" where
  "update st self kw = st\<lparr>opt_heap := (opt_heap st)[self := apply_kwargs kw (opt_heap st ! self)]\<rparr>"

text \<open>\<^verbatim>\<open>Options.show\<close>: call \<open>condition\<close> if it is callable; a truthy condition hides.\<close>

definition Options_show :: "Options \<Rightarrow> bool" where
  "Options_show self =
     (let c = (case condition self of CondCallable r \<Rightarrow> r | Cond v \<Rightarrow> v)
      in if c then False else True)"

text \<open>\<^verbatim>\<open>getattr(obj, next)\<close> and the loop of \<^verbatim>\<open>getObj\<close> over the dot segments.\<close>

fun getattr :: "pyobj \<Rightarrow> string \<Rightarrow> error + pyobj" where
  "getattr (PyObj attrs) a = (case map_of attrs a of None \<Rightarrow> Inl AttributeError | Some v \<Rightarrow> Inr v)"

fun getattr_walk :: "pyobj \<Rightarrow> string list \<Rightarrow> error + pyobj" where
  "getattr_walk obj [] = Inr obj"
| "getattr_walk obj (a # as) =
     (case getattr obj a of Inl e \<Rightarrow> Inl e | Inr obj' \<Rightarrow> getattr_walk obj' as)"

text \<open>\<^verbatim>\<open>'%s' % v\<close> for a \<open>kls\<close> that is \<^verbatim>\<open>None\<close> or a string.\<close>

fun format_s :: "pyval \<Rightarrow> string" where
  "format_s PNone = ''None''"
| "format_s (PStr s) = s"
| "format_s (PObj obj) = ''<object>''"

text \<open>
  \<^verbatim>\<open>Options.getObj\<close>. A \<open>kls\<close> that is an object is returned as it is. Otherwise the local
  variable \<^verbatim>\<open>kls\<close> is the string (\<^verbatim>\<open>''\<close> for \<^verbatim>\<open>None\<close>) with one leading dot removed if it
  starts with a dot, and then one trailing dot removed if it ends with one. The branch for a
  string \<open>module\<close> formats \<^verbatim>\<open>self.kls\<close>, the attribute, not the local variable.
\<close>

definition strip_dots :: "string \<Rightarrow> string" where
  "strip_dots s =
     (let k = (if startswith s CHR ''.'' then tl s else s)
      in if endswith k CHR ''.'' then butlast k else k)"

definition getObj :: "Options \<Rightarrow> error + pyval" where
  "getObj self =
     (case kls self of
        PObj obj \<Rightarrow> Inr (PObj obj)
      | _ \<Rightarrow>
        (let local_kls = strip_dots (case kls self of PStr s \<Rightarrow> s | _ \<Rightarrow> [])
         in case module self of
              PNone \<Rightarrow> (if local_kls = [] then Inr PNone else Inr (PStr local_kls))
            | PStr m \<Rightarrow> Inr (PStr (m @ ''.'' @ format_s (kls self)))
            | PObj m \<Rightarrow>
                (case getattr_walk m (split CHR ''.'' local_kls) of
                   Inl e \<Rightarrow> Inl e
                 | Inr obj \<Rightarrow> Inr (PObj obj))))"

text \<open>
  What \<^verbatim>\<open>Options.urlPattern\<close> yields: \<^verbatim>\<open>(pattern, view, kwargs, name)\<close>. A value of the
  \<^verbatim>\<open>kwargs\<close> dictionary is a plain value, the target, the section or the bound method
  \<^verbatim>\<open>self.show\<close> of the \<^verbatim>\<open>Options\<close> object at an address.
\<close>

datatype view_t = redirect_to | ViewFunction string | dispatch

datatype kwval = KVal pyval | KTarget target_t | KSection "ref option" | KShow ref

type_synonym pydict = "(string \<times> kwval) list"

type_synonym pattern_tuple = "string \<times> view_t \<times> pydict option \<times> string option"

datatype pattern_arg = PatternList "string list" | PatternStr string

text \<open>\<^verbatim>\<open>d[k] = v\<close> and \<^verbatim>\<open>d.update(e)\<close>.\<close>

fun dict_set :: "string \<Rightarrow> kwval \<Rightarrow> pydict \<Rightarrow> pydict" where
  "dict_set k v [] = [(k, v)]"
| "dict_set k v ((k', v') # d) = (if k = k' then (k, v) # d else (k', v') # dict_set k v d)"

definition dict_update :: "pydict \<Rightarrow> (string \<times> pyval) list \<Rightarrow> pydict" where
  "dict_update d e = foldl (\<lambda>acc (k, v). dict_set k (KVal v) acc) d e"

text \<open>
  \<^verbatim>\<open>Options.urlPattern(self, pattern, section=None, name=None)\<close>, a generator, in four
  parts. First the regular expression: a list or tuple is joined with \<^verbatim>\<open>/\<close>, runs of
  slashes are collapsed, and the result is put between \<^verbatim>\<open>^\<close> and \<^verbatim>\<open>$\<close> when it ends in a
  slash and between \<^verbatim>\<open>^\<close> and \<^verbatim>\<open>/?$\<close> otherwise.
\<close>

definition url_regex :: "pattern_arg \<Rightarrow> string" where
  "url_regex pattern_in =
     (let joined = (case pattern_in of PatternList segs \<Rightarrow> join ''/'' segs | PatternStr s \<Rightarrow> s);
          collapsed = multiSlash_sub joined
      in if endswith collapsed CHR ''/'' then ''^'' @ collapsed @ ''$''
         else ''^'' @ collapsed @ ''/?$'')"

text \<open>Then the redirect: called if callable; it counts when it is a non-empty string.\<close>

definition resolve_redirect :: "redirect_t \<Rightarrow> pyval" where
  "resolve_redirect r = (case r of RedirectCallable v \<Rightarrow> v | Redirect v \<Rightarrow> v)"

fun nonempty_str :: "pyval \<Rightarrow> bool" where
  "nonempty_str (PStr s) = (s \<noteq> [])"
| "nonempty_str _ = False"

text \<open>
  Then the keywords for the dispatcher: \<^verbatim>\<open>obj\<close>, \<^verbatim>\<open>target\<close>, \<^verbatim>\<open>section\<close> and \<^verbatim>\<open>condition\<close>
  (the bound method \<^verbatim>\<open>self.show\<close>), updated with a non-empty \<^verbatim>\<open>extraContext\<close>. \<^verbatim>\<open>getObj\<close> may
  raise.
\<close>

definition dispatch_kwargs :: "Options \<Rightarrow> ref \<Rightarrow> ref option \<Rightarrow> error + pydict" where
  "dispatch_kwargs opts self section_in =
     (case getObj opts of
        Inl e \<Rightarrow> Inl e
      | Inr obj \<Rightarrow>
          (let kwargs = [(''obj'', KVal obj), (''target'', KTarget (target opts)),
                         (''section'', KSection section_in), (''condition'', KShow self)]
           in Inr (case extraContext opts of
                     None \<Rightarrow> kwargs
                   | Some e \<Rightarrow> if e = [] then kwargs else dict_update kwargs e)))"

text \<open>
  The generator itself. The object is read at its address, which also names the bound
  method. Nothing in the body reads \<^verbatim>\<open>self.values\<close>.
\<close>

definition Options_urlPattern ::
  "store \<Rightarrow> ref \<Rightarrow> pattern_arg \<Rightarrow> ref option \<Rightarrow> string option \<Rightarrow> pattern_tuple gen" where
  "Options_urlPattern st self pattern_in section_in name_in =
     (let opts = opt_heap st ! self in
      if active opts \<and> exists opts then
        (let regex = url_regex pattern_in;
             redir = resolve_redirect (redirect opts)
         in if nonempty_str redir then
              ([(regex, redirect_to, Some [(''url'', KVal redir)], name_in)], None)
            else
              (case target opts of
                 TargetFunction f \<Rightarrow>
                   ([(regex, ViewFunction f,
                      map_option (map (\<lambda>(k, v). (k, KVal v))) (extraContext opts), name_in)], None)
               | Target t \<Rightarrow>
                   (case dispatch_kwargs opts self section_in of
                      Inl e \<Rightarrow> ([], Some e)
                    | Inr kwargs \<Rightarrow> ([(regex, dispatch, Some kwargs, name_in)], None))))
      else ([], None))"

text \<open>An assignment to an attribute of a \<^verbatim>\<open>Values\<close> object: \<^verbatim>\<open>v.asSet = b\<close>.\<close>

definition Values_set_asSet :: "store \<Rightarrow> ref \<Rightarrow> bool \<Rightarrow> store" where
  "Values_set_asSet st v b = st\<lparr>val_heap := (val_heap st)[v := (val_heap st ! v)\<lparr>asSet := b\<rparr>]\<rparr>"

section \<open>Section: construction\<close>

text \<open>
  \<^verbatim>\<open>Section(url, name, parent)\<close> allocates the object. The class has no \<^verbatim>\<open>setup\<close>, so
  \<^verbatim>\<open>hasattr(self, 'setup')\<close> is false and \<^verbatim>\<open>__init__\<close> ends there.
\<close>

definition Section_init :: "store \<Rightarrow> string \<Rightarrow> string option \<Rightarrow> ref option \<Rightarrow> ref \<times> store" where
  "Section_init st url_in name_in parent_in =
     (length (sec_heap st),
      st\<lparr>sec_heap := sec_heap st @
            [\<lparr> url = url_in, name = name_in, parent = parent_in, priv_options = None,
               children = [], priv_pattern = None, pattern = None \<rparr>]\<rparr>)"

text \<open>
  Reading \<^verbatim>\<open>self.options\<close> goes through \<^verbatim>\<open>__getattr__\<close>: when \<^verbatim>\<open>_options\<close> is \<^verbatim>\<open>None\<close> a
  default \<^verbatim>\<open>Options()\<close> is created and stored. Assigning \<^verbatim>\<open>self.options\<close> goes through
  \<^verbatim>\<open>__setattr__\<close> and stores under \<^verbatim>\<open>_options\<close>.
\<close>

definition Section_options :: "store \<Rightarrow> ref \<Rightarrow> ref \<times> store" where
  "Section_options st self =
     (case priv_options (sec_heap st ! self) of
        Some current \<Rightarrow> (current, st)
      | None \<Rightarrow>
          (let opts = length (opt_heap st)
           in (opts,
               st\<lparr>opt_heap := opt_heap st @ [Options_init],
                  sec_heap := (sec_heap st)[self := (sec_heap st ! self)\<lparr>priv_options := Some opts\<rparr>]\<rparr>)))"

definition set_options :: "store \<Rightarrow> ref \<Rightarrow> ref \<Rightarrow> store" where
  "set_options st self opts =
     st\<lparr>sec_heap := (sec_heap st)[self := (sec_heap st ! self)\<lparr>priv_options := Some opts\<rparr>]\<rparr>"

definition set_children :: "store \<Rightarrow> ref \<Rightarrow> ref list \<Rightarrow> store" where
  "set_children st self cs =
     st\<lparr>sec_heap := (sec_heap st)[self := (sec_heap st ! self)\<lparr>children := cs\<rparr>]\<rparr>"

definition match_kwargs :: "string option \<Rightarrow> kwargs" where
  "match_kwargs m = no_kwargs\<lparr>kw_match := Some m\<rparr>"

text \<open>\<^verbatim>\<open>Section.add(self, url, match=None, name=None)\<close>.\<close>

definition add :: "store \<Rightarrow> ref \<Rightarrow> string \<Rightarrow> string option \<Rightarrow> string option \<Rightarrow> error + (ref \<times> store)" where
  "add st self url_in match_in name_in =
     (if url_in = [] then Inl ValueError
      else
        (let (section, st1) = Section_init st url_in name_in (Some self);
             (opts, st2) = Section_options st1 self
         in case clone st2 opts (match_kwargs match_in) of
              Inl e \<Rightarrow> Inl e
            | Inr (cloned, st3) \<Rightarrow>
                (let st4 = set_options st3 section cloned;
                     st5 = set_children st4 self (children (sec_heap st4 ! self) @ [section])
                 in Inr (section, st5))))"

text \<open>\<^verbatim>\<open>Section.first(self, match=None, name=None)\<close>.\<close>

definition first :: "store \<Rightarrow> ref \<Rightarrow> string option \<Rightarrow> string option \<Rightarrow> error + (ref \<times> store)" where
  "first st self match_in name_in =
     (let cs = children (sec_heap st ! self);
          st0 = (if cs \<noteq> [] \<and> url (sec_heap st ! hd cs) = [] then set_children st self (tl cs)
                 else st);
          (section, st1) = Section_init st0 [] name_in (Some self);
          (opts, st2) = Section_options st1 self
      in case clone st2 opts (match_kwargs match_in) of
           Inl e \<Rightarrow> Inl e
         | Inr (cloned, st3) \<Rightarrow>
             (let st4 = set_options st3 section cloned;
                  st5 = set_children st4 self (section # children (sec_heap st4 ! self))
              in Inr (section, st5)))"

text \<open>\<^verbatim>\<open>Section.base(self, **kwargs)\<close>; it returns \<^verbatim>\<open>self\<close>.\<close>

definition base :: "store \<Rightarrow> ref \<Rightarrow> kwargs \<Rightarrow> ref \<times> store" where
  "base st self kw = (let (opts, st1) = Section_options st self in (self, update st1 opts kw))"

section \<open>Section: walking to the root\<close>

text \<open>
  \<^verbatim>\<open>rootAncestor\<close>, \<^verbatim>\<open>show\<close> and \<^verbatim>\<open>getPattern\<close> recurse along \<^verbatim>\<open>parent\<close>. On a store whose
  parent links form a cycle the recursion does not end; the result \<open>None\<close> stands for that.
  A \<^verbatim>\<open>Section\<close> object is always truthy, so \<^verbatim>\<open>if self.parent\<close> tests for \<^verbatim>\<open>None\<close>.
\<close>

partial_function (option) rootAncestor :: "store \<Rightarrow> ref \<Rightarrow> ref option" where
  "rootAncestor st self =
     (case parent (sec_heap st ! self) of
        Some p \<Rightarrow> rootAncestor st p
      | None \<Rightarrow> Some self)"

partial_function (option) Section_show :: "store \<Rightarrow> ref \<Rightarrow> (bool \<times> store) option" where
  "Section_show st self =
     Option.bind
       (case parent (sec_heap st ! self) of
          None \<Rightarrow> Some (True, st)
        | Some p \<Rightarrow> Section_show st p)
       (\<lambda>(parentShow, st1).
          if parentShow then
            (let (opts, st2) = Section_options st1 self
             in Some (Options_show (opt_heap st2 ! opts), st2))
          else Some (False, st1))"

text \<open>\<^verbatim>\<open>Section.appear\<close>: \<^verbatim>\<open>self.options.display and self.show()\<close>.\<close>

definition appear :: "store \<Rightarrow> ref \<Rightarrow> (bool \<times> store) option" where
  "appear st self =
     (let (opts, st1) = Section_options st self
      in if display (opt_heap st1 ! opts) then Section_show st1 self else Some (False, st1))"

text \<open>
  The last steps of \<^verbatim>\<open>getPattern\<close>, after the parent's pattern has been copied: append the
  node's segment, assign the list to \<^verbatim>\<open>self.pattern\<close> and return it. The assignment is to
  \<^verbatim>\<open>pattern\<close>; \<^verbatim>\<open>_pattern\<close> is not written.
\<close>

definition segment :: "string option \<Rightarrow> string \<Rightarrow> string" where
  "segment m u = (if truthy m then ''(?P<'' @ the m @ ''>'' @ u @ '')'' else u)"

definition getPattern_append :: "store \<Rightarrow> ref \<Rightarrow> string list \<Rightarrow> string list \<times> store" where
  "getPattern_append st self pat =
     (let (opts, st1) = Section_options st self;
          m = match (opt_heap st1 ! opts);
          pat' = pat @ [segment m (url (sec_heap st1 ! self))];
          st2 = st1\<lparr>sec_heap := (sec_heap st1)[self := (sec_heap st1 ! self)\<lparr>pattern := Some pat'\<rparr>]\<rparr>
      in (pat', st2))"

partial_function (option) getPattern :: "store \<Rightarrow> ref \<Rightarrow> (string list \<times> store) option" where
  "getPattern st self =
     (if truthy (priv_pattern (sec_heap st ! self))
      then Some (the (priv_pattern (sec_heap st ! self)), st)
      else
        Option.bind
          (case parent (sec_heap st ! self) of
             None \<Rightarrow> Some ([], st)
           | Some p \<Rightarrow> getPattern st p)
          (\<lambda>(pat, st1). Some (getPattern_append st1 self pat)))"

section \<open>Section: URL patterns\<close>

text \<open>
  \<^verbatim>\<open>Section.urlPattern\<close>: everything \<^verbatim>\<open>self.options.urlPattern(self.getPattern(), self,
  self.name)\<close> yields.
\<close>

definition Section_urlPattern :: "store \<Rightarrow> ref \<Rightarrow> (pattern_tuple gen \<times> store) option" where
  "Section_urlPattern st self =
     (let (opts, st1) = Section_options st self
      in Option.bind (getPattern st1 self)
           (\<lambda>(pat, st2).
              Some (Options_urlPattern st2 opts (PatternList pat) (Some self)
                      (name (sec_heap st2 ! self)), st2)))"

text \<open>
  \<^verbatim>\<open>Section.patternList\<close>. Its first expression is \<^verbatim>\<open>section.showBase\<close>. The name \<^verbatim>\<open>section\<close>
  is neither a local of the method nor bound in the module (the module binds the names
  below), so the first \<^verbatim>\<open>next()\<close> on the generator raises \<^verbatim>\<open>NameError\<close>, before anything is
  yielded and before \<^verbatim>\<open>self.urlPattern()\<close> or a child is reached. The rest of the body is
  never run and has no counterpart here.
\<close>

definition module_names :: "string list" where
  "module_names =
     [''include'', ''patterns'', ''redirect_to'', ''Http404'', ''dispatch'', ''FunctionType'',
      ''chain'', ''re'', ''regexes'', ''Section'', ''Options'', ''Values'', ''Site'', ''Menu'']"

definition global_name :: "string \<Rightarrow> error option" where
  "global_name n = (if n \<in> set module_names then None else Some NameError)"

definition patternList :: "store \<Rightarrow> ref \<Rightarrow> pattern_tuple gen \<times> store" where
  "patternList st self = (([], global_name ''section''), st)"

section \<open>Section: menu information\<close>

text \<open>
  The tuple \<^verbatim>\<open>getInfo\<close> yields is \<^verbatim>\<open>(url, fullUrl, alias, selected, children, options)\<close>.
  \<^verbatim>\<open>children\<close> is the node's list of children or, when a generator function \<^verbatim>\<open>gen\<close> was
  given, the function \<^verbatim>\<open>lambda : gen(self.children, fullUrl, selected, path)()\<close>, kept
  here with the four values it closes over.

  The helper \<^verbatim>\<open>get\<close> unpacks \<^verbatim>\<open>path, selected = self.determineSelection(...)\<close> while
  \<^verbatim>\<open>determineSelection\<close> returns the flag first and the rest of the path second: after the
  line, \<^verbatim>\<open>path\<close> is the flag and \<^verbatim>\<open>selected\<close> is the rest of the path.
\<close>

datatype gen_t = Gen_heirarchial | Gen_layered

datatype children_t =
  ChildrenList "ref list"
| ChildrenThunk gen_t "ref list" "string list" "string list" bool

type_synonym info = "string \<times> string list \<times> string \<times> string list \<times> children_t \<times> ref"

definition get :: "Section \<Rightarrow> string list option \<Rightarrow> bool \<Rightarrow> gen_t option \<Rightarrow> string list \<Rightarrow> string option
    \<Rightarrow> string list \<times> children_t \<times> string list" where
  "get self parentUrl parentSelected gen_in path url_in =
     (let u = (if \<not> truthy url_in then url self else the url_in);
          (path', selected) = determineSelection self path parentSelected (Some u);
          fullUrl = (if \<not> truthy parentUrl then [] else the parentUrl);
          fullUrl' = (if u \<noteq> [] then fullUrl @ [u] else fullUrl);
          cs = (case gen_in of
                  None \<Rightarrow> ChildrenList (children self)
                | Some g \<Rightarrow> ChildrenThunk g (children self) fullUrl' selected path')
      in (selected, cs, fullUrl'))"

text \<open>
  \<^verbatim>\<open>Section.getInfo(self, path, parentUrl=None, parentSelected=False, gen=None)\<close>, a
  generator. With \<^verbatim>\<open>self.options.values\<close> set, the body reads \<^verbatim>\<open>self.values\<close>: a \<^verbatim>\<open>Section\<close>
  has no such attribute and \<^verbatim>\<open>__getattr__\<close> raises \<^verbatim>\<open>AttributeError\<close>.
\<close>

definition getInfo ::
  "store \<Rightarrow> ref \<Rightarrow> string list \<Rightarrow> string list option \<Rightarrow> bool \<Rightarrow> gen_t option
    \<Rightarrow> (info gen \<times> store) option" where
  "getInfo st self path parentUrl parentSelected gen_in =
     (let (opts, st1) = Section_options st self in
      if \<not> (active (opt_heap st1 ! opts) \<and> exists (opt_heap st1 ! opts)) then Some (([], None), st1)
      else
        Option.bind (Section_show st1 self)
          (\<lambda>(shown, st2).
             if \<not> shown then Some (([], None), st2)
             else if values' (opt_heap st2 ! opts) \<noteq> None then Some (([], Some AttributeError), st2)
             else
               (let me = sec_heap st2 ! self;
                    a = (if \<not> truthy (alias' (opt_heap st2 ! opts)) then capitalize (url me)
                         else the (alias' (opt_heap st2 ! opts)));
                    (selected, cs, fullUrl) = get me parentUrl parentSelected gen_in path None
                in Some (([(url me, fullUrl, a, selected, cs, opts)], None), st2))))"

section \<open>Menu\<close>

text \<open>
  A \<^verbatim>\<open>Menu\<close> holds \<^verbatim>\<open>site\<close>, \<^verbatim>\<open>remainingUrl\<close> and \<^verbatim>\<open>selectedSection\<close>. \<^verbatim>\<open>heirarchial\<close> reads
  the last two only, and the record keeps those.
\<close>

record Menu =
  remainingUrl :: "string list"
  selectedSection :: "ref option"

text \<open>
  \<^verbatim>\<open>Menu.heirarchial(self, section=None, path=None, parentUrl=None, parentSelected=False)\<close>,
  a generator. The result carries the list \<^verbatim>\<open>parentUrl\<close> as the call leaves it. In the
  branch for \<^verbatim>\<open>showBase\<close> false, the argument list of the first \<^verbatim>\<open>child.getInfo(...)\<close> reads
  \<^verbatim>\<open>self.hierarchial\<close>; the class defines \<^verbatim>\<open>heirarchial\<close>, \<^verbatim>\<open>getGlobal\<close>, \<^verbatim>\<open>layered\<close> and
  \<^verbatim>\<open>getLayer\<close>, so the read raises \<^verbatim>\<open>AttributeError\<close> before the call and before any yield.
  With no children the loop body is not entered and the generator ends normally.
\<close>

definition Menu_methods :: "string list" where
  "Menu_methods = [''getGlobal'', ''heirarchial'', ''layered'', ''getLayer'']"

definition Menu_attribute :: "string \<Rightarrow> error option" where
  "Menu_attribute a =
     (if a \<in> set Menu_methods \<or> a \<in> {''site'', ''remainingUrl'', ''selectedSection''} then None
      else Some AttributeError)"

definition heirarchial ::
  "store \<Rightarrow> Menu \<Rightarrow> ref option \<Rightarrow> string list option \<Rightarrow> string list option \<Rightarrow> bool
    \<Rightarrow> (info gen \<times> string list \<times> store) option" where
  "heirarchial st self section_in path_in parentUrl_in parentSelected =
     (let section = (case section_in of None \<Rightarrow> selectedSection self | Some s \<Rightarrow> Some s);
          path = (if \<not> truthy path_in then remainingUrl self else the path_in);
          parentUrl = (case parentUrl_in of None \<Rightarrow> [] | Some p \<Rightarrow> p)
      in case section of
           None \<Rightarrow> Some (([], Some AttributeError), parentUrl, st)
         | Some s \<Rightarrow>
             (let (opts, st1) = Section_options st s in
              if showBase (opt_heap st1 ! opts) then
                Option.bind (getInfo st1 s path (Some parentUrl) parentSelected (Some Gen_heirarchial))
                  (\<lambda>(infos, st2). Some (infos, parentUrl, st2))
              else
                (let parentUrl' = (if url (sec_heap st1 ! s) \<noteq> [] then parentUrl @ [url (sec_heap st1 ! s)]
                                   else parentUrl)
                 in if children (sec_heap st1 ! s) = [] then Some (([], None), parentUrl', st1)
                    else Some (([], Menu_attribute ''hierarchial''), parentUrl', st1))))"

section \<open>Values\<close>

text \<open>\<^verbatim>\<open>Values(values, each, asSet, sorter, sortWithAlias)\<close>: a falsy \<^verbatim>\<open>values\<close> becomes \<^verbatim>\<open>[]\<close>.\<close>

definition Values_init ::
  "store \<Rightarrow> values_t option \<Rightarrow> (string list \<Rightarrow> string \<Rightarrow> string \<times> string) option \<Rightarrow> bool \<Rightarrow> sorter_t
    \<Rightarrow> bool \<Rightarrow> ref \<times> store" where
  "Values_init st values_in each_in asSet_in sorter_in sortWithAlias_in =
     (length (val_heap st),
      st\<lparr>val_heap := val_heap st @
            [\<lparr> vvalues = (case values_in of None \<Rightarrow> ValuesList [] | Some v \<Rightarrow> v),
               each = each_in, asSet = asSet_in, sorter = sorter_in,
               sortWithAlias = sortWithAlias_in \<rparr>]\<rparr>)"

section \<open>Trees built through the interface\<close>

text \<open>
  The stores a program reaches by creating roots \<^verbatim>\<open>Section(url, name)\<close> (parent \<^verbatim>\<open>None\<close>), any
  number of them, and by \<^verbatim>\<open>add\<close>, \<^verbatim>\<open>first\<close>, \<^verbatim>\<open>base\<close>, \<^verbatim>\<open>getPattern\<close> and creating \<^verbatim>\<open>Values\<close>
  objects. A store may hold several trees; the first root is at address 0.
\<close>

inductive built :: "store \<Rightarrow> bool" where
  built_root: "built (snd (Section_init empty_store u n None))"
| built_section:
    "built st \<Longrightarrow> Section_init st u n None = (r, st') \<Longrightarrow> built st'"
| built_add:
    "built st \<Longrightarrow> self < length (sec_heap st) \<Longrightarrow> add st self u m n = Inr (c, st') \<Longrightarrow> built st'"
| built_first:
    "built st \<Longrightarrow> self < length (sec_heap st) \<Longrightarrow> first st self m n = Inr (c, st') \<Longrightarrow> built st'"
| built_base:
    "built st \<Longrightarrow> self < length (sec_heap st) \<Longrightarrow> base st self kw = (r, st') \<Longrightarrow> built st'"
| built_getPattern:
    "built st \<Longrightarrow> self < length (sec_heap st) \<Longrightarrow> getPattern st self = Some (pat, st') \<Longrightarrow> built st'"
| built_values:
    "built st \<Longrightarrow> Values_init st v e a s w = (r, st') \<Longrightarrow> built st'"

text \<open>
  The nodes the parent links lead to from a node, the node itself among them. The root of
  the tree a node belongs to is the one of them that has no parent.
\<close>

inductive ancestor :: "store \<Rightarrow> ref \<Rightarrow> ref \<Rightarrow> bool" for st :: store where
  ancestor_self: "ancestor st n n"
| ancestor_parent: "parent (sec_heap st ! n) = Some p \<Longrightarrow> ancestor st p a \<Longrightarrow> ancestor st n a"

text \<open>The store of a successful call, for writing examples.\<close>

definition store_of :: "error + (ref \<times> store) \<Rightarrow> store" where
  "store_of r = (case r of Inr (_, st) \<Rightarrow> st | Inl _ \<Rightarrow> empty_store)"

section \<open>Invariants of built trees\<close>

text \<open>
  What the proofs about built trees rest on. \<open>node_match\<close> is the \<^verbatim>\<open>match\<close> a node's options
  declare; a node whose \<^verbatim>\<open>Options\<close> object does not exist yet would get the default, \<^verbatim>\<open>None\<close>.
  In a well-formed store the parent of a node is an older node, no node has a \<^verbatim>\<open>_pattern\<close>,
  and every \<^verbatim>\<open>_options\<close> is an allocated address.
\<close>

definition node_match :: "store \<Rightarrow> ref \<Rightarrow> string option" where
  "node_match st n =
     (case priv_options (sec_heap st ! n) of None \<Rightarrow> None | Some r \<Rightarrow> match (opt_heap st ! r))"

definition node_ok :: "nat \<Rightarrow> Section \<Rightarrow> ref \<Rightarrow> bool" where
  "node_ok olen sec n =
     ((case parent sec of None \<Rightarrow> True | Some p \<Rightarrow> p < n) \<and>
      priv_pattern sec = None \<and>
      (case priv_options sec of None \<Rightarrow> True | Some r \<Rightarrow> r < olen))"

definition wf_store :: "store \<Rightarrow> bool" where
  "wf_store st =
     (sec_heap st \<noteq> [] \<and>
      (\<forall>n < length (sec_heap st). node_ok (length (opt_heap st)) (sec_heap st ! n) n))"

text \<open>
  \<open>opts_kept\<close>: a step keeps every node, its parent, and the fact that it has options.
  \<open>has_opts\<close>: every node with a parent has options. \<open>same_tree\<close>: a step changes neither the
  number of nodes nor the url, the parent or the declared match of any node.
\<close>

definition opts_kept :: "store \<Rightarrow> store \<Rightarrow> bool" where
  "opts_kept st st' =
     (length (sec_heap st) \<le> length (sec_heap st') \<and>
      (\<forall>n < length (sec_heap st).
         parent (sec_heap st' ! n) = parent (sec_heap st ! n) \<and>
         (priv_options (sec_heap st ! n) \<noteq> None \<longrightarrow> priv_options (sec_heap st' ! n) \<noteq> None)))"

definition has_opts :: "store \<Rightarrow> bool" where
  "has_opts st =
     (\<forall>n < length (sec_heap st).
        parent (sec_heap st ! n) \<noteq> None \<longrightarrow> priv_options (sec_heap st ! n) \<noteq> None)"

definition same_tree :: "store \<Rightarrow> store \<Rightarrow> bool" where
  "same_tree st st' =
     (length (sec_heap st') = length (sec_heap st) \<and>
      (\<forall>n < length (sec_heap st).
         url (sec_heap st' ! n) = url (sec_heap st ! n) \<and>
         parent (sec_heap st' ! n) = parent (sec_heap st ! n) \<and>
         node_match st' n = node_match st n))"

text \<open>
  Two parts of \<open>add\<close> and \<open>first\<close>, named for the proofs: \<open>attach\<close> is what both do between
  allocating the new section and changing \<^verbatim>\<open>self.children\<close>; \<open>without_first\<close> is the \<^verbatim>\<open>pop(0)\<close>
  that \<open>first\<close> starts with.
\<close>

definition attach :: "store \<Rightarrow> ref \<Rightarrow> ref \<Rightarrow> string option \<Rightarrow> store" where
  "attach st1 self section m =
     (let st2 = snd (Section_options st1 self);
          opts = fst (Section_options st1 self);
          st3 = st2\<lparr>opt_heap := opt_heap st2 @ [apply_kwargs (match_kwargs m) (opt_heap st2 ! opts)]\<rparr>
      in set_options st3 section (length (opt_heap st2)))"

definition without_first :: "store \<Rightarrow> ref \<Rightarrow> store" where
  "without_first st self =
     (let cs = children (sec_heap st ! self)
      in if cs \<noteq> [] \<and> url (sec_heap st ! hd cs) = [] then set_children st self (tl cs) else st)"


section \<open>Example stores\<close>

text \<open>A section \<^verbatim>\<open>Section('products')\<close> as \<^verbatim>\<open>__init__\<close> leaves it.\<close>

definition ex_section :: Section where
  "ex_section =
     \<lparr> url = ''products'', name = None, parent = None, priv_options = None,
       children = [], priv_pattern = None, pattern = None \<rparr>"

text \<open>
  \<^verbatim>\<open>root = Section()\<close>, then \<^verbatim>\<open>shop = root.add('products', name='products')\<close>, then
  \<^verbatim>\<open>shop.add('42', match='id', name='detail')\<close>. The three sections are the addresses 0, 1, 2.
\<close>

definition ex_root :: store where
  "ex_root = snd (Section_init empty_store ''/'' None None)"

definition ex_shop :: store where
  "ex_shop = store_of (add ex_root 0 ''products'' None (Some ''products''))"

definition ex_products :: store where
  "ex_products = store_of (add ex_shop 1 ''42'' (Some ''id'') (Some ''detail''))"

text \<open>
  A second tree beside the first: after \<^verbatim>\<open>root.add('products', name='products')\<close>, a new
  root \<^verbatim>\<open>blog = Section('blog')\<close> (address 2) and \<^verbatim>\<open>blog.first()\<close> (address 3).
\<close>

definition ex_forest :: store where
  "ex_forest = snd (Section_init ex_shop ''blog'' None None)"

definition ex_forest_child :: store where
  "ex_forest_child = store_of (first ex_forest 2 None None)"

text \<open>
  \<^verbatim>\<open>v = Values(values=lambda path: ['1', '2', '3'], each=lambda path, v: (v, v))\<close>, then
  \<^verbatim>\<open>item = root.add('item', name='item')\<close> and \<^verbatim>\<open>item.base(values=v)\<close>: a section whose options
  carry an enumerator over three values.
\<close>

definition ex_values :: store where
  "ex_values =
     snd (Values_init ex_root (Some (ValuesCallable (\<lambda>path. [''1'', ''2'', ''3''])))
            (Some (\<lambda>path v. (v, v))) False SorterNone True)"

definition ex_item0 :: store where
  "ex_item0 = store_of (add ex_values 0 ''item'' None (Some ''item''))"

definition ex_item :: store where
  "ex_item = snd (base ex_item0 1 (no_kwargs\<lparr>kw_values := Some (Some 0)\<rparr>))"

text \<open>
  \<^verbatim>\<open>source = Options(values=Values(values=['1', '2', '3']))\<close> and \<^verbatim>\<open>source.clone()\<close>: the
  source is the \<^verbatim>\<open>Options\<close> object 0, the clone the object 1.
\<close>

definition ex_source :: store where
  "ex_source =
     store_of (Options_new
        (snd (Values_init empty_store (Some (ValuesList [''1'', ''2'', ''3''])) None False SorterNone True))
        (no_kwargs\<lparr>kw_values := Some (Some 0)\<rparr>))"

definition ex_cloned :: store where
  "ex_cloned = store_of (clone ex_source 0 no_kwargs)"

text \<open>\<^verbatim>\<open>source.clone(match='id')\<close>, a clone with one override.\<close>

definition ex_cloned_match :: store where
  "ex_cloned_match = store_of (clone ex_source 0 (match_kwargs (Some ''id'')))"


text \<open>\<^verbatim>\<open>hidden = root.add('hidden')\<close> and \<^verbatim>\<open>hidden.base(active=False)\<close>.\<close>

definition ex_hidden0 :: store where
  "ex_hidden0 = store_of (add ex_root 0 ''hidden'' None None)"

definition ex_hidden :: store where
  "ex_hidden = snd (base ex_hidden0 1 (no_kwargs\<lparr>kw_active := Some False\<rparr>))"

text \<open>
  \<^verbatim>\<open>root.base(showBase=False)\<close>, then \<^verbatim>\<open>root.add('about')\<close>, and the menu
  \<^verbatim>\<open>Menu(site, root, ['about'])\<close>.
\<close>

definition ex_group0 :: store where
  "ex_group0 = snd (base ex_root 0 (no_kwargs\<lparr>kw_showBase := Some False\<rparr>))"

definition ex_group :: store where
  "ex_group = store_of (add ex_group0 0 ''about'' None None)"

definition ex_menu :: Menu where
  "ex_menu = \<lparr> remainingUrl = [''about''], selectedSection = Some 0 \<rparr>"

section \<open>Selection\<close>

text \<open>
  Claim C3. \<^verbatim>\<open>determineSelection(path, parentSelected, url)\<close> returns \<^verbatim>\<open>(False, [])\<close> whenever
  \<^verbatim>\<open>parentSelected\<close> is false or \<^verbatim>\<open>path\<close> is empty. Otherwise it returns \<^verbatim>\<open>(True, path[1:])\<close>
  when the first element of the path equals the url and \<^verbatim>\<open>(False, [])\<close> when it does not,
  where the url is the argument, or the node's own url when the argument is \<^verbatim>\<open>None\<close> or
  empty.
\<close>

theorem determineSelection_cases:
  "(\<not> parentSelected \<or> path = [] \<longrightarrow>
      determineSelection self path parentSelected url_arg = (False, [])) \<and>
   (parentSelected \<and> path = p # ps \<and> p = effective_url self url_arg \<longrightarrow>
      determineSelection self path parentSelected url_arg = (True, ps)) \<and>
   (parentSelected \<and> path = p # ps \<and> p \<noteq> effective_url self url_arg \<longrightarrow>
      determineSelection self path parentSelected url_arg = (False, []))"
  by (cases url_arg) (auto simp: determineSelection_def effective_url_def Let_def)

theorem determineSelection_cases_witness:
  "determineSelection ex_section [] True None = (False, []) \<and>
   determineSelection ex_section [''products'', ''42''] True None = (True, [''42'']) \<and>
   determineSelection ex_section [''about'', ''42''] True None = (False, [])"
  using determineSelection_cases
      [where parentSelected = True and path = "[]" and self = ex_section and url_arg = None]
    determineSelection_cases
      [where parentSelected = True and path = "[''products'', ''42'']" and p = "''products''"
         and ps = "[''42'']" and self = ex_section and url_arg = None]
    determineSelection_cases
      [where parentSelected = True and path = "[''about'', ''42'']" and p = "''about''"
         and ps = "[''42'']" and self = ex_section and url_arg = None]
  by (simp add: effective_url_def ex_section_def)

section \<open>Joining and collapsing\<close>








lemma multiSlash_sub_hd: "multiSlash_sub s \<noteq> [] \<Longrightarrow> hd (multiSlash_sub s) = hd s"
  by (cases s) simp_all

lemma multiSlash_sub_Nil_iff: "multiSlash_sub s = [] \<longleftrightarrow> s = []"
  by (cases s) simp_all

lemma multiSlash_sub_no_run:
  "successively (\<lambda>a b. \<not> (a = CHR ''/'' \<and> b = CHR ''/'')) (multiSlash_sub s)"
proof (induction s rule: multiSlash_sub.induct)
  case 1
  show ?case by simp
next
  case (2 c cs)
  show ?case
  proof (cases "c = CHR ''/''")
    case True
    define r where "r = dropWhile (\<lambda>d. d = CHR ''/'') cs"
    have eq: "multiSlash_sub (c # cs) = CHR ''/'' # multiSlash_sub r"
      using True by (simp add: r_def)
    have ih: "successively (\<lambda>a b. \<not> (a = CHR ''/'' \<and> b = CHR ''/'')) (multiSlash_sub r)"
      using 2(1) True by (simp add: r_def)
    have hd_r: "r \<noteq> [] \<Longrightarrow> hd r \<noteq> CHR ''/''"
      unfolding r_def by (rule hd_dropWhile)
    show ?thesis
    proof (cases "r = []")
      case True
      then show ?thesis unfolding eq by simp
    next
      case False
      then have "multiSlash_sub r \<noteq> []" by (simp add: multiSlash_sub_Nil_iff)
      moreover from this have "hd (multiSlash_sub r) \<noteq> CHR ''/''"
        using hd_r False by (simp add: multiSlash_sub_hd)
      ultimately show ?thesis using ih unfolding eq successively_Cons by simp
    qed
  next
    case False
    then have eq: "multiSlash_sub (c # cs) = c # multiSlash_sub cs" by simp
    from False 2(2) have "successively (\<lambda>a b. \<not> (a = CHR ''/'' \<and> b = CHR ''/'')) (multiSlash_sub cs)"
      by simp
    with False show ?thesis unfolding eq successively_Cons by simp
  qed
qed

section \<open>What Options.urlPattern yields\<close>


lemma Options_urlPattern_shape:
  assumes "active (opt_heap st ! self)" and "exists (opt_heap st ! self)"
  shows "(\<exists>view kw. Options_urlPattern st self pat sec nm = ([(url_regex pat, view, kw, nm)], None)) \<or>
         (\<exists>e. Options_urlPattern st self pat sec nm = ([], Some e))"
proof (cases "nonempty_str (resolve_redirect (redirect (opt_heap st ! self)))")
  case True
  with assms show ?thesis by (simp add: Options_urlPattern_def Let_def)
next
  case False
  show ?thesis
  proof (cases "target (opt_heap st ! self)")
    case (Target t)
    with False assms show ?thesis
      by (cases "dispatch_kwargs (opt_heap st ! self) self sec") (simp_all add: Options_urlPattern_def Let_def)
  next
    case (TargetFunction f)
    with False assms show ?thesis by (simp add: Options_urlPattern_def Let_def)
  qed
qed


lemma Options_urlPattern_inactive:
  "\<not> (active (opt_heap st ! self) \<and> exists (opt_heap st ! self)) \<Longrightarrow>
     Options_urlPattern st self pat sec nm = ([], None)"
  by (auto simp: Options_urlPattern_def Let_def)

lemma Options_urlPattern_length: "length (fst (Options_urlPattern st self pat sec nm)) \<le> 1"
proof (cases "active (opt_heap st ! self) \<and> exists (opt_heap st ! self)")
  case True
  then show ?thesis using Options_urlPattern_shape [of st self pat sec nm] by auto
next
  case False
  then show ?thesis by (simp add: Options_urlPattern_inactive)
qed

lemma getObj_values: "getObj (opts\<lparr>values' := v\<rparr>) = getObj opts"
  by (cases "kls opts"; cases "module opts") (simp_all add: getObj_def)

lemma dispatch_kwargs_values: "dispatch_kwargs (opts\<lparr>values' := v\<rparr>) self sec = dispatch_kwargs opts self sec"
  by (cases "getObj opts") (simp_all add: dispatch_kwargs_def getObj_values Let_def)

lemma Options_urlPattern_values:
  "Options_urlPattern (st\<lparr>opt_heap := (opt_heap st)[self := (opt_heap st ! self)\<lparr>values' := v\<rparr>]\<rparr>)
       self pat sec nm = Options_urlPattern st self pat sec nm"
proof (cases "self < length (opt_heap st)")
  case True
  then have "opt_heap (st\<lparr>opt_heap := (opt_heap st)[self := (opt_heap st ! self)\<lparr>values' := v\<rparr>]\<rparr>) ! self
      = (opt_heap st ! self)\<lparr>values' := v\<rparr>"
    by simp
  then show ?thesis
    unfolding Options_urlPattern_def by (simp add: dispatch_kwargs_values Let_def cong: target_t.case_cong)
next
  case False
  then have "(opt_heap st)[self := (opt_heap st ! self)\<lparr>values' := v\<rparr>] = opt_heap st"
    by (simp add: list_update_beyond)
  then show ?thesis by simp
qed

section \<open>Well-formed stores\<close>

lemma same_tree_refl: "same_tree st st"
  by (simp add: same_tree_def)

lemma same_tree_trans: "same_tree a b \<Longrightarrow> same_tree b c \<Longrightarrow> same_tree a c"
  by (simp add: same_tree_def)

lemma opts_kept_refl: "opts_kept st st"
  by (simp add: opts_kept_def)

lemma opts_kept_trans:
  assumes "opts_kept a b" and "opts_kept b c"
  shows "opts_kept a c"
proof -
  have len: "length (sec_heap a) \<le> length (sec_heap b)" "length (sec_heap b) \<le> length (sec_heap c)"
    using assms by (simp_all add: opts_kept_def)
  have "parent (sec_heap c ! n) = parent (sec_heap a ! n) \<and>
        (priv_options (sec_heap a ! n) \<noteq> None \<longrightarrow> priv_options (sec_heap c ! n) \<noteq> None)"
    if "n < length (sec_heap a)" for n
  proof -
    from that len have "n < length (sec_heap b)" by simp
    with assms that show ?thesis by (simp add: opts_kept_def)
  qed
  with len show ?thesis by (simp add: opts_kept_def)
qed

lemma has_opts_kept: "has_opts st \<Longrightarrow> opts_kept st st' \<Longrightarrow> length (sec_heap st') = length (sec_heap st) \<Longrightarrow> has_opts st'"
  by (simp add: has_opts_def opts_kept_def)

lemma nth_upd: "(xs[i := x]) ! j = (if i = j \<and> i < length xs then x else xs ! j)"
  by (cases "i < length xs") (auto simp: nth_list_update list_update_beyond not_less)

lemma node_ok_mono: "node_ok l s n \<Longrightarrow> l \<le> l' \<Longrightarrow> node_ok l' s n"
  by (auto simp: node_ok_def split: option.splits)

lemma node_ok_children [simp]: "node_ok l (s\<lparr>children := c\<rparr>) n = node_ok l s n"
  by (simp add: node_ok_def)

lemma node_ok_pattern [simp]: "node_ok l (s\<lparr>pattern := p\<rparr>) n = node_ok l s n"
  by (simp add: node_ok_def)

lemma node_ok_options: "node_ok l s n \<Longrightarrow> r < l \<Longrightarrow> node_ok l (s\<lparr>priv_options := Some r\<rparr>) n"
  by (simp add: node_ok_def)

lemma wf_storeD: "wf_store st \<Longrightarrow> n < length (sec_heap st) \<Longrightarrow> node_ok (length (opt_heap st)) (sec_heap st ! n) n"
  by (simp add: wf_store_def)

lemma wf_update_node:
  assumes "wf_store st" and "node_ok (length (opt_heap st)) s self"
  shows "wf_store (st\<lparr>sec_heap := (sec_heap st)[self := s]\<rparr>)"
  using assms by (simp add: wf_store_def nth_upd)

lemma wf_grow_opts:
  assumes "wf_store st"
  shows "wf_store (st\<lparr>opt_heap := opt_heap st @ xs\<rparr>)"
  unfolding wf_store_def
proof (intro conjI allI impI)
  show "sec_heap (st\<lparr>opt_heap := opt_heap st @ xs\<rparr>) \<noteq> []"
    using assms by (simp add: wf_store_def)
  fix n
  assume "n < length (sec_heap (st\<lparr>opt_heap := opt_heap st @ xs\<rparr>))"
  then have "node_ok (length (opt_heap st)) (sec_heap st ! n) n"
    using assms by (simp add: wf_store_def)
  then have "node_ok (length (opt_heap st) + length xs) (sec_heap st ! n) n"
    by (rule node_ok_mono) simp
  then show "node_ok (length (opt_heap (st\<lparr>opt_heap := opt_heap st @ xs\<rparr>)))
      (sec_heap (st\<lparr>opt_heap := opt_heap st @ xs\<rparr>) ! n) n"
    by simp
qed

lemma wf_alloc:
  assumes "wf_store st" and "node_ok (length (opt_heap st)) s (length (sec_heap st))"
  shows "wf_store (st\<lparr>sec_heap := sec_heap st @ [s]\<rparr>)"
  using assms by (simp add: wf_store_def nth_append less_Suc_eq)

lemma wf_init: "wf_store (snd (Section_init empty_store u n None))"
  by (simp add: wf_store_def node_ok_def Section_init_def empty_store_def)

lemma has_opts_init: "has_opts (snd (Section_init empty_store u n None))"
  by (simp add: has_opts_def Section_init_def empty_store_def)

lemma Section_init_wf:
  assumes "wf_store st" and "p < length (sec_heap st)"
  shows "wf_store (snd (Section_init st u nm (Some p)))"
  using assms unfolding Section_init_def
  by (simp add: wf_alloc node_ok_def)

lemma Section_init_root_wf:
  assumes "wf_store st"
  shows "wf_store (snd (Section_init st u nm None))"
  using assms unfolding Section_init_def
  by (simp add: wf_alloc node_ok_def)

lemma Section_init_root_has_opts:
  assumes "has_opts st"
  shows "has_opts (snd (Section_init st u nm None))"
  using assms by (simp add: has_opts_def Section_init_def nth_append less_Suc_eq)

lemma Section_init_kept: "opts_kept st (snd (Section_init st u nm p))"
  by (simp add: opts_kept_def Section_init_def nth_append)

lemma Section_init_new:
  "fst (Section_init st u nm p) = length (sec_heap st)"
  "length (sec_heap (snd (Section_init st u nm p))) = Suc (length (sec_heap st))"
  "parent (sec_heap (snd (Section_init st u nm p)) ! length (sec_heap st)) = p"
  by (simp_all add: Section_init_def)

lemma Section_options_Some:
  "priv_options (sec_heap st ! self) = Some r \<Longrightarrow> Section_options st self = (r, st)"
  by (simp add: Section_options_def)

lemma Section_options_None:
  "priv_options (sec_heap st ! self) = None \<Longrightarrow>
     Section_options st self =
       (length (opt_heap st),
        st\<lparr>opt_heap := opt_heap st @ [Options_init],
           sec_heap := (sec_heap st)[self := (sec_heap st ! self)\<lparr>priv_options := Some (length (opt_heap st))\<rparr>]\<rparr>)"
  by (simp add: Section_options_def Let_def)

lemma Section_options_wf:
  assumes "wf_store st" and "self < length (sec_heap st)"
  shows "wf_store (snd (Section_options st self))"
proof (cases "priv_options (sec_heap st ! self)")
  case None
  have "wf_store (st\<lparr>opt_heap := opt_heap st @ [Options_init]\<rparr>)"
    using assms(1) by (rule wf_grow_opts)
  moreover have "node_ok (length (opt_heap st @ [Options_init]))
      ((sec_heap st ! self)\<lparr>priv_options := Some (length (opt_heap st))\<rparr>) self"
    using wf_storeD [OF assms] by (simp add: node_ok_def split: option.splits)
  ultimately have "wf_store (st\<lparr>opt_heap := opt_heap st @ [Options_init]\<rparr>
      \<lparr>sec_heap := (sec_heap (st\<lparr>opt_heap := opt_heap st @ [Options_init]\<rparr>))
          [self := (sec_heap st ! self)\<lparr>priv_options := Some (length (opt_heap st))\<rparr>]\<rparr>)"
    by (intro wf_update_node) simp_all
  then show ?thesis by (simp add: Section_options_None [OF None])
next
  case (Some r)
  then show ?thesis using assms by (simp add: Section_options_Some)
qed

lemma Section_options_kept: "opts_kept st (snd (Section_options st self))"
  by (cases "priv_options (sec_heap st ! self)")
     (simp_all add: Section_options_None Section_options_Some opts_kept_def nth_upd)

lemma Section_options_length [simp]:
  "length (sec_heap (snd (Section_options st self))) = length (sec_heap st)"
  by (cases "priv_options (sec_heap st ! self)")
     (simp_all add: Section_options_None Section_options_Some)

lemma Section_options_result:
  assumes "wf_store st" and "self < length (sec_heap st)"
  shows "fst (Section_options st self) < length (opt_heap (snd (Section_options st self)))"
    and "priv_options (sec_heap (snd (Section_options st self)) ! self) = Some (fst (Section_options st self))"
    and "match (opt_heap (snd (Section_options st self)) ! fst (Section_options st self)) = node_match st self"
proof -
  show "fst (Section_options st self) < length (opt_heap (snd (Section_options st self)))"
    using wf_storeD [OF assms]
    by (cases "priv_options (sec_heap st ! self)")
       (simp_all add: Section_options_None Section_options_Some node_ok_def)
  show "priv_options (sec_heap (snd (Section_options st self)) ! self) = Some (fst (Section_options st self))"
    using assms(2)
    by (cases "priv_options (sec_heap st ! self)")
       (simp_all add: Section_options_None Section_options_Some)
  show "match (opt_heap (snd (Section_options st self)) ! fst (Section_options st self)) = node_match st self"
    by (cases "priv_options (sec_heap st ! self)")
       (simp_all add: Section_options_None Section_options_Some node_match_def Options_init_def)
qed

lemma Section_options_same_tree:
  assumes "wf_store st"
  shows "same_tree st (snd (Section_options st self))"
proof (cases "priv_options (sec_heap st ! self)")
  case None
  have "node_match (snd (Section_options st self)) n = node_match st n"
    if "n < length (sec_heap st)" for n
  proof (cases "n = self")
    case True
    with None that show ?thesis
      by (simp add: Section_options_None node_match_def Options_init_def)
  next
    case False
    show ?thesis
    proof (cases "priv_options (sec_heap st ! n)")
      case None' : None
      with None False show ?thesis by (simp add: Section_options_None node_match_def)
    next
      case (Some r)
      with wf_storeD [OF assms that] have "r < length (opt_heap st)" by (simp add: node_ok_def)
      with Some None False show ?thesis by (simp add: Section_options_None node_match_def nth_append)
    qed
  qed
  with None show ?thesis
    by (simp add: same_tree_def Section_options_None nth_upd)
next
  case (Some r)
  then show ?thesis by (simp add: Section_options_Some same_tree_refl)
qed

lemma clone_ok:
  "kw_other kw = [] \<Longrightarrow>
     clone st self kw =
       Inr (length (opt_heap st), st\<lparr>opt_heap := opt_heap st @ [apply_kwargs kw (opt_heap st ! self)]\<rparr>)"
  by (simp add: clone_def Let_def)

lemma match_kwargs_other [simp]: "kw_other (match_kwargs m) = []"
  by (simp add: match_kwargs_def no_kwargs_def)

lemma set_options_wf:
  assumes "wf_store st" and "n < length (sec_heap st)" and "r < length (opt_heap st)"
  shows "wf_store (set_options st n r)"
  unfolding set_options_def
  using assms wf_storeD [OF assms(1,2)] by (intro wf_update_node node_ok_options)

lemma set_options_kept: "opts_kept st (set_options st n r)"
  by (simp add: opts_kept_def set_options_def nth_upd)

lemma set_options_new:
  "n < length (sec_heap st) \<Longrightarrow> priv_options (sec_heap (set_options st n r) ! n) = Some r"
  by (simp add: set_options_def)

lemma set_children_wf:
  assumes "wf_store st" and "n < length (sec_heap st)"
  shows "wf_store (set_children st n cs)"
  unfolding set_children_def
  using assms wf_storeD [OF assms] by (intro wf_update_node) simp_all

lemma set_children_kept: "opts_kept st (set_children st n cs)"
  by (simp add: opts_kept_def set_children_def nth_upd)

lemma set_children_length [simp]: "length (sec_heap (set_children st n cs)) = length (sec_heap st)"
  by (simp add: set_children_def)

lemma set_options_length [simp]: "length (sec_heap (set_options st n r)) = length (sec_heap st)"
  by (simp add: set_options_def)

lemma set_options_opt_heap [simp]: "opt_heap (set_options st n r) = opt_heap st"
  by (simp add: set_options_def)

lemma attach_props:
  assumes "wf_store st1" and "self < length (sec_heap st1)" and "section < length (sec_heap st1)"
  shows "wf_store (attach st1 self section m)"
    and "opts_kept st1 (attach st1 self section m)"
    and "length (sec_heap (attach st1 self section m)) = length (sec_heap st1)"
    and "priv_options (sec_heap (attach st1 self section m) ! section) \<noteq> None"
proof -
  let ?st2 = "snd (Section_options st1 self)"
  let ?opts = "fst (Section_options st1 self)"
  let ?st3 = "?st2\<lparr>opt_heap := opt_heap ?st2 @ [apply_kwargs (match_kwargs m) (opt_heap ?st2 ! ?opts)]\<rparr>"
  have wf2: "wf_store ?st2" using assms(1,2) by (rule Section_options_wf)
  then have wf3: "wf_store ?st3" by (rule wf_grow_opts)
  have len3: "length (sec_heap ?st3) = length (sec_heap st1)" by simp
  have k12: "opts_kept st1 ?st2" by (rule Section_options_kept)
  have k23: "opts_kept ?st2 ?st3" by (simp add: opts_kept_def)
  have k34: "opts_kept ?st3 (set_options ?st3 section (length (opt_heap ?st2)))"
    by (rule set_options_kept)
  have att: "attach st1 self section m = set_options ?st3 section (length (opt_heap ?st2))"
    by (simp add: attach_def Let_def)
  show "wf_store (attach st1 self section m)"
    unfolding att using wf3 assms(3) by (intro set_options_wf) simp_all
  show "opts_kept st1 (attach st1 self section m)"
    unfolding att using k12 k23 k34 by (blast intro: opts_kept_trans)
  show "length (sec_heap (attach st1 self section m)) = length (sec_heap st1)"
    unfolding att by simp
  show "priv_options (sec_heap (attach st1 self section m) ! section) \<noteq> None"
    unfolding att using assms(3) by (simp add: set_options_new)
qed

lemma add_unfold:
  "u \<noteq> [] \<Longrightarrow>
     add st self u m nm =
       Inr (length (sec_heap st),
            (let st4 = attach (snd (Section_init st u nm (Some self))) self (length (sec_heap st)) m
             in set_children st4 self (children (sec_heap st4 ! self) @ [length (sec_heap st)])))"
  by (simp add: add_def attach_def Let_def split_beta clone_ok Section_init_new)

lemma first_unfold:
  "first st self m nm =
     Inr (length (sec_heap st),
          (let st4 = attach (snd (Section_init (without_first st self) [] nm (Some self))) self
                       (length (sec_heap (without_first st self))) m
           in set_children st4 self (length (sec_heap st) # children (sec_heap st4 ! self))))"
  by (simp add: first_def without_first_def attach_def Let_def split_beta clone_ok Section_init_new)

lemma without_first_props:
  assumes "wf_store st" and "self < length (sec_heap st)"
  shows "wf_store (without_first st self)"
    and "length (sec_heap (without_first st self)) = length (sec_heap st)"
    and "opts_kept st (without_first st self)"
  using assms by (simp_all add: without_first_def Let_def set_children_wf set_children_kept opts_kept_refl)

lemma new_child_props:
  fixes st0 :: store and self :: ref and u :: string and nm m :: "string option"
  assumes wf: "wf_store st0" and self: "self < length (sec_heap st0)"
  defines "c \<equiv> length (sec_heap st0)"
  defines "st4 \<equiv> attach (snd (Section_init st0 u nm (Some self))) self c m"
  shows "wf_store (set_children st4 self cs)"
    and "opts_kept st0 (set_children st4 self cs)"
    and "length (sec_heap (set_children st4 self cs)) = Suc c"
    and "parent (sec_heap (set_children st4 self cs) ! c) = Some self"
    and "priv_options (sec_heap (set_children st4 self cs) ! c) \<noteq> None"
proof -
  let ?st1 = "snd (Section_init st0 u nm (Some self))"
  have wf1: "wf_store ?st1" using wf self by (rule Section_init_wf)
  have len1: "length (sec_heap ?st1) = Suc c" by (simp add: Section_init_new c_def)
  have par1: "parent (sec_heap ?st1 ! c) = Some self" by (simp add: Section_init_new c_def)
  have self1: "self < length (sec_heap ?st1)" and c1: "c < length (sec_heap ?st1)"
    using self len1 by (simp_all add: c_def)
  note att = attach_props [OF wf1 self1 c1, of m, folded st4_def]
  have k01: "opts_kept st0 ?st1" by (rule Section_init_kept)
  have k45: "opts_kept st4 (set_children st4 self cs)" by (rule set_children_kept)
  have k15: "opts_kept ?st1 (set_children st4 self cs)"
    using att(2) k45 by (rule opts_kept_trans)
  show "wf_store (set_children st4 self cs)"
    using att(1) self1 att(3) by (intro set_children_wf) simp_all
  show "opts_kept st0 (set_children st4 self cs)"
    using k01 k15 by (rule opts_kept_trans)
  show "length (sec_heap (set_children st4 self cs)) = Suc c"
    using att(3) len1 by simp
  show "parent (sec_heap (set_children st4 self cs) ! c) = Some self"
    using k15 c1 par1 by (simp add: opts_kept_def)
  show "priv_options (sec_heap (set_children st4 self cs) ! c) \<noteq> None"
    using k45 att(3,4) c1 by (simp add: opts_kept_def)
qed

lemma has_opts_child:
  assumes "has_opts st" and "opts_kept st st'" and "length (sec_heap st') = Suc (length (sec_heap st))"
    and "priv_options (sec_heap st' ! length (sec_heap st)) \<noteq> None"
  shows "has_opts st'"
  unfolding has_opts_def
proof (intro allI impI)
  fix n
  assume n: "n < length (sec_heap st')" and p: "parent (sec_heap st' ! n) \<noteq> None"
  show "priv_options (sec_heap st' ! n) \<noteq> None"
  proof (cases "n = length (sec_heap st)")
    case True
    with assms(4) show ?thesis by simp
  next
    case False
    with n assms(3) have "n < length (sec_heap st)" by simp
    with assms(1,2) p show ?thesis by (simp add: has_opts_def opts_kept_def)
  qed
qed

lemma add_props:
  assumes "wf_store st" and "self < length (sec_heap st)" and "add st self u m nm = Inr (c, st')"
  shows "wf_store st'" and "opts_kept st st'" and "c = length (sec_heap st)"
    and "length (sec_heap st') = Suc (length (sec_heap st))"
    and "parent (sec_heap st' ! c) = Some self"
    and "priv_options (sec_heap st' ! c) \<noteq> None"
proof -
  from assms(3) have u: "u \<noteq> []" by (auto simp: add_def split: if_splits)
  define X where "X = (let st4 = attach (snd (Section_init st u nm (Some self))) self (length (sec_heap st)) m
             in set_children st4 self (children (sec_heap st4 ! self) @ [length (sec_heap st)]))"
  from assms(3) have eq: "Inr (length (sec_heap st), X) = (Inr (c, st') :: error + ref \<times> store)"
    unfolding add_unfold [OF u] X_def .
  then have c: "c = length (sec_heap st)" by simp
  from eq have "st' = X" by simp
  then have st': "st' = (let st4 = attach (snd (Section_init st u nm (Some self))) self (length (sec_heap st)) m
             in set_children st4 self (children (sec_heap st4 ! self) @ [length (sec_heap st)]))"
    by (simp only: X_def)
  note props = new_child_props [OF assms(1,2), of u nm m]
  show "c = length (sec_heap st)" by (rule c)
  show "wf_store st'" unfolding st' Let_def by (rule props)
  show "opts_kept st st'" unfolding st' Let_def by (rule props)
  show "length (sec_heap st') = Suc (length (sec_heap st))" unfolding st' Let_def by (rule props)
  show "parent (sec_heap st' ! c) = Some self" unfolding st' Let_def c by (rule props)
  show "priv_options (sec_heap st' ! c) \<noteq> None" unfolding st' Let_def c by (rule props)
qed

lemma first_props:
  assumes "wf_store st" and "self < length (sec_heap st)" and "first st self m nm = Inr (c, st')"
  shows "wf_store st'" and "opts_kept st st'" and "c = length (sec_heap st)"
    and "length (sec_heap st') = Suc (length (sec_heap st))"
    and "parent (sec_heap st' ! c) = Some self"
    and "priv_options (sec_heap st' ! c) \<noteq> None"
proof -
  define st0 where "st0 = without_first st self"
  note wo = without_first_props [OF assms(1,2), folded st0_def]
  have self0: "self < length (sec_heap st0)" using assms(2) wo(2) by simp
  define X where "X = (let st4 = attach (snd (Section_init (without_first st self) [] nm (Some self))) self
                       (length (sec_heap (without_first st self))) m
           in set_children st4 self (length (sec_heap st) # children (sec_heap st4 ! self)))"
  from assms(3) have eq: "Inr (length (sec_heap st), X) = (Inr (c, st') :: error + ref \<times> store)"
    unfolding first_unfold X_def .
  then have c0: "c = length (sec_heap st)" by simp
  then have c: "c = length (sec_heap st0)" using wo(2) by simp
  from eq have "st' = X" by simp
  then have st': "st' = set_children (attach (snd (Section_init st0 [] nm (Some self))) self (length (sec_heap st0)) m) self
                (length (sec_heap st) # children (sec_heap (attach (snd (Section_init st0 [] nm (Some self))) self (length (sec_heap st0)) m) ! self))"
    by (simp only: X_def Let_def st0_def)
  note props = new_child_props [OF wo(1) self0, of "[]" nm m]
  show "c = length (sec_heap st)" using c wo(2) by simp
  show "wf_store st'" unfolding st' by (rule props)
  show "opts_kept st st'" unfolding st' using wo(3) props(2) by (rule opts_kept_trans)
  show "length (sec_heap st') = Suc (length (sec_heap st))" unfolding st' using props(3) wo(2) by simp
  show "parent (sec_heap st' ! c) = Some self" unfolding st' c by (rule props)
  show "priv_options (sec_heap st' ! c) \<noteq> None" unfolding st' c by (rule props)
qed

lemma update_props:
  assumes "wf_store st"
  shows "wf_store (update st opts kw)" and "opts_kept st (update st opts kw)"
    and "length (sec_heap (update st opts kw)) = length (sec_heap st)"
  using assms by (simp_all add: update_def wf_store_def opts_kept_def)

lemma base_props:
  assumes "wf_store st" and "self < length (sec_heap st)" and "base st self kw = (r, st')"
  shows "wf_store st'" and "opts_kept st st'" and "length (sec_heap st') = length (sec_heap st)"
proof -
  let ?st1 = "snd (Section_options st self)"
  from assms(3) have st': "st' = update ?st1 (fst (Section_options st self)) kw"
    by (auto simp: base_def split_beta)
  have wf1: "wf_store ?st1" using assms(1,2) by (rule Section_options_wf)
  show "wf_store st'" unfolding st' using wf1 by (rule update_props)
  show "opts_kept st st'" unfolding st'
    using Section_options_kept update_props(2) [OF wf1] by (rule opts_kept_trans)
  show "length (sec_heap st') = length (sec_heap st)" unfolding st'
    using update_props(3) [OF wf1] by simp
qed

lemma Values_init_props:
  assumes "wf_store st" and "Values_init st v e a s w = (r, st')"
  shows "wf_store st'" and "opts_kept st st'" and "length (sec_heap st') = length (sec_heap st)"
  using assms by (auto simp: Values_init_def wf_store_def opts_kept_def)

lemma node_match_pattern_upd:
  "node_match (st\<lparr>sec_heap := (sec_heap st)[self := (sec_heap st ! self)\<lparr>pattern := p\<rparr>]\<rparr>) n =
     node_match st n"
proof (cases "self < length (sec_heap st)")
  case True
  then show ?thesis by (cases "self = n") (simp_all add: node_match_def split: option.split)
next
  case False
  then show ?thesis by (simp add: node_match_def list_update_beyond)
qed

lemma getPattern_append_props:
  assumes "wf_store st" and "self < length (sec_heap st)"
  shows "fst (getPattern_append st self pat) = pat @ [segment (node_match st self) (url (sec_heap st ! self))]"
    and "wf_store (snd (getPattern_append st self pat))"
    and "same_tree st (snd (getPattern_append st self pat))"
    and "opts_kept st (snd (getPattern_append st self pat))"
proof -
  let ?st1 = "snd (Section_options st self)"
  let ?opts = "fst (Section_options st self)"
  let ?pat = "pat @ [segment (match (opt_heap ?st1 ! ?opts)) (url (sec_heap ?st1 ! self))]"
  let ?st2 = "?st1\<lparr>sec_heap := (sec_heap ?st1)[self := (sec_heap ?st1 ! self)\<lparr>pattern := Some ?pat\<rparr>]\<rparr>"
  have res: "getPattern_append st self pat = (?pat, ?st2)"
    by (simp add: getPattern_append_def split_beta Let_def)
  have wf1: "wf_store ?st1" using assms by (rule Section_options_wf)
  have t1: "same_tree st ?st1" using assms(1) by (rule Section_options_same_tree)
  have self1: "self < length (sec_heap ?st1)" using assms(2) by simp
  have m: "match (opt_heap ?st1 ! ?opts) = node_match st self"
    using assms by (rule Section_options_result)
  have u: "url (sec_heap ?st1 ! self) = url (sec_heap st ! self)"
    using t1 assms(2) by (simp add: same_tree_def)
  show "fst (getPattern_append st self pat) = pat @ [segment (node_match st self) (url (sec_heap st ! self))]"
    by (simp add: res m u)
  have wf2: "wf_store ?st2"
    using wf1 wf_storeD [OF wf1 self1] by (intro wf_update_node) simp_all
  then show "wf_store (snd (getPattern_append st self pat))" by (simp add: res)
  have t2: "same_tree ?st1 ?st2"
    unfolding same_tree_def node_match_pattern_upd by (simp add: nth_upd)
  show "same_tree st (snd (getPattern_append st self pat))"
    unfolding res snd_conv using t1 t2 by (rule same_tree_trans)
  have k2: "opts_kept ?st1 ?st2" by (simp add: opts_kept_def nth_upd)
  show "opts_kept st (snd (getPattern_append st self pat))"
    unfolding res snd_conv using Section_options_kept k2 by (rule opts_kept_trans)
qed

lemma same_tree_length: "same_tree st st' \<Longrightarrow> length (sec_heap st') = length (sec_heap st)"
  by (simp add: same_tree_def)

lemma getPattern_total:
  assumes "wf_store st" and "n < length (sec_heap st)"
  shows "\<exists>pat st'. getPattern st n = Some (pat, st') \<and> wf_store st' \<and> same_tree st st' \<and> opts_kept st st'"
  using assms
proof (induction n arbitrary: st rule: less_induct)
  case (less n)
  have np: "\<not> truthy (priv_pattern (sec_heap st ! n))"
    using wf_storeD [OF less.prems] by (simp add: node_ok_def)
  show ?case
  proof (cases "parent (sec_heap st ! n)")
    case None
    with np have "getPattern st n = Some (getPattern_append st n [])"
      by (subst getPattern.simps) simp
    with getPattern_append_props [OF less.prems, of "[]"] show ?thesis
      by (cases "getPattern_append st n []") auto
  next
    case (Some p)
    with wf_storeD [OF less.prems] have "p < n" by (simp add: node_ok_def)
    with less.prems have "p < length (sec_heap st)" by simp
    from less.IH [OF \<open>p < n\<close> less.prems(1) this]
    obtain pp st1 where p: "getPattern st p = Some (pp, st1)" and wf1: "wf_store st1"
      and t1: "same_tree st st1" and k1: "opts_kept st st1"
      by blast
    have n1: "n < length (sec_heap st1)" using t1 less.prems(2) by (simp add: same_tree_def)
    from np Some p have "getPattern st n = Some (getPattern_append st1 n pp)"
      by (subst getPattern.simps) simp
    moreover note getPattern_append_props [OF wf1 n1, of pp]
    ultimately show ?thesis
      using t1 k1 by (cases "getPattern_append st1 n pp") (auto intro: same_tree_trans opts_kept_trans)
  qed
qed

lemma rootAncestor_total:
  assumes "wf_store st" and "n < length (sec_heap st)"
  shows "\<exists>r. rootAncestor st n = Some r \<and> r \<le> n \<and> parent (sec_heap st ! r) = None \<and> ancestor st n r"
  using assms
proof (induction n rule: less_induct)
  case (less n)
  show ?case
  proof (cases "parent (sec_heap st ! n)")
    case None
    then have "rootAncestor st n = Some n" by (subst rootAncestor.simps) simp
    with None show ?thesis by (auto intro: ancestor_self)
  next
    case (Some p)
    with wf_storeD [OF less.prems] have "p < n" by (simp add: node_ok_def)
    with less obtain r where r: "rootAncestor st p = Some r" "r \<le> p"
      "parent (sec_heap st ! r) = None" "ancestor st p r"
      by force
    from Some r(1) have "rootAncestor st n = Some r" by (subst rootAncestor.simps) simp
    moreover from Some r(4) have "ancestor st n r" by (rule ancestor_parent)
    ultimately show ?thesis using r(2,3) \<open>p < n\<close> by auto
  qed
qed

lemma rootAncestor_ancestor:
  assumes "ancestor st n r" and "parent (sec_heap st ! r) = None"
  shows "rootAncestor st n = Some r"
  using assms
proof (induction rule: ancestor.induct)
  case (ancestor_self n)
  then show ?case by (subst rootAncestor.simps) simp
next
  case (ancestor_parent n p a)
  then have "rootAncestor st p = Some a" by simp
  with ancestor_parent(1) show ?case by (subst rootAncestor.simps) simp
qed

lemma rootAncestor_kept:
  assumes "wf_store st" and "opts_kept st st'" and "n < length (sec_heap st)"
  shows "rootAncestor st' n = rootAncestor st n"
  using assms(3)
proof (induction n rule: less_induct)
  case (less n)
  have par: "parent (sec_heap st' ! n) = parent (sec_heap st ! n)"
    using assms(2) less.prems by (simp add: opts_kept_def)
  show ?case
  proof (cases "parent (sec_heap st ! n)")
    case None
    with par have "rootAncestor st' n = Some n" "rootAncestor st n = Some n"
      by (subst rootAncestor.simps, simp)+
    then show ?thesis by simp
  next
    case (Some p)
    with wf_storeD [OF assms(1) less.prems] have "p < n" by (simp add: node_ok_def)
    with less have ih: "rootAncestor st' p = rootAncestor st p" by simp
    from Some par have "rootAncestor st' n = rootAncestor st' p" "rootAncestor st n = rootAncestor st p"
      by (subst rootAncestor.simps, simp)+
    with ih show ?thesis by simp
  qed
qed

lemma rootAncestor_child:
  assumes "parent (sec_heap st ! c) = Some s"
  shows "rootAncestor st c = rootAncestor st s"
  using assms by (subst rootAncestor.simps) simp

lemma built_inv: "built st \<Longrightarrow> wf_store st \<and> has_opts st"
proof (induction rule: built.induct)
  case (built_root u n)
  show ?case by (simp add: wf_init has_opts_init)
next
  case (built_section st u n r st')
  then have "st' = snd (Section_init st u n None)" by (metis snd_conv)
  with built_section show ?case
    by (simp add: Section_init_root_wf Section_init_root_has_opts)
next
  case (built_add st self u m n c st')
  with add_props [of st self u m n c st'] show ?case
    by (auto intro: has_opts_child)
next
  case (built_first st self m n c st')
  with first_props [of st self m n c st'] show ?case
    by (auto intro: has_opts_child)
next
  case (built_base st self kw r st')
  with base_props [of st self kw r st'] show ?case
    by (auto intro: has_opts_kept)
next
  case (built_getPattern st self pat st')
  with getPattern_total [of st self] show ?case
    by (auto intro: has_opts_kept simp: same_tree_length)
next
  case (built_values st v e a s w r st')
  with Values_init_props [of st v e a s w r st'] show ?case
    by (auto intro: has_opts_kept)
qed

section \<open>Patterns and roots in built trees\<close>

lemmas ev = Section_init_def empty_store_def add_def store_of_def Section_options_def
  clone_def match_kwargs_def no_kwargs_def apply_kwargs_def override_def Options_init_def
  set_options_def set_children_def Let_def first_def base_def update_def Values_init_def
  Options_new_def

lemma ex_shop_add: "add ex_root 0 ''products'' None (Some ''products'') = Inr (1, ex_shop)"
  by (simp add: ex_shop_def ex_root_def ev)

lemma ex_products_add: "add ex_shop 1 ''42'' (Some ''id'') (Some ''detail'') = Inr (2, ex_products)"
  by (simp add: ex_products_def ex_shop_def ex_root_def ev)

lemma ex_lengths: "length (sec_heap ex_root) = 1" "length (sec_heap ex_shop) = 2" "length (sec_heap ex_products) = 3"
  by (simp_all add: ex_products_def ex_shop_def ex_root_def ev)

lemma built_ex_root: "built ex_root"
  unfolding ex_root_def by (rule built_root)

lemma built_ex_shop: "built ex_shop"
  by (rule built_add [OF built_ex_root _ ex_shop_add]) (simp add: ex_lengths)

lemma built_ex_products: "built ex_products"
  by (rule built_add [OF built_ex_shop _ ex_products_add]) (simp add: ex_lengths)

lemma getPattern_parent_segment:
  assumes "built st" and "n < length (sec_heap st)" and "parent (sec_heap st ! n) = Some p"
  shows "\<exists>pp st1 st2 opts.
           getPattern st p = Some (pp, st1) \<and>
           priv_options (sec_heap st ! n) = Some opts \<and>
           getPattern st n =
             Some (pp @ [segment (match (opt_heap st ! opts)) (url (sec_heap st ! n))], st2)"
proof -
  from built_inv [OF assms(1)] have wf: "wf_store st" and ho: "has_opts st" by simp_all
  from wf_storeD [OF wf assms(2)] assms(3) have "p < n" by (simp add: node_ok_def)
  with assms(2) have pl: "p < length (sec_heap st)" by simp
  from getPattern_total [OF wf pl]
  obtain pp st1 where p: "getPattern st p = Some (pp, st1)" and wf1: "wf_store st1"
    and t1: "same_tree st st1"
    by blast
  from ho assms(2,3) obtain opts where o: "priv_options (sec_heap st ! n) = Some opts"
    by (auto simp: has_opts_def)
  have n1: "n < length (sec_heap st1)" using t1 assms(2) by (simp add: same_tree_def)
  have np: "\<not> truthy (priv_pattern (sec_heap st ! n))"
    using wf_storeD [OF wf assms(2)] by (simp add: node_ok_def)
  from np assms(3) p have g: "getPattern st n = Some (getPattern_append st1 n pp)"
    by (subst getPattern.simps) simp
  have f: "fst (getPattern_append st1 n pp) = pp @ [segment (node_match st1 n) (url (sec_heap st1 ! n))]"
    using wf1 n1 by (rule getPattern_append_props)
  have e1: "node_match st1 n = node_match st n" and e2: "url (sec_heap st1 ! n) = url (sec_heap st ! n)"
    using t1 assms(2) by (simp_all add: same_tree_def)
  have e3: "node_match st n = match (opt_heap st ! opts)"
    using o by (simp add: node_match_def)
  from f have "getPattern_append st1 n pp =
      (pp @ [segment (match (opt_heap st ! opts)) (url (sec_heap st ! n))], snd (getPattern_append st1 n pp))"
    by (simp add: prod_eq_iff e1 e2 e3)
  with g p o show ?thesis by auto
qed

lemmas getPattern_ev = getPattern_append_def segment_def Section_options_def Let_def

lemma ex_products_val:
  "ex_products =
     \<lparr>sec_heap =
        [\<lparr>url = ''/'', name = None, parent = None, priv_options = Some 0, children = [1],
            priv_pattern = None, pattern = None\<rparr>,
         \<lparr>url = ''products'', name = Some ''products'', parent = Some 0, priv_options = Some 1,
            children = [2], priv_pattern = None, pattern = None\<rparr>,
         \<lparr>url = ''42'', name = Some ''detail'', parent = Some 1, priv_options = Some 2,
            children = [], priv_pattern = None, pattern = None\<rparr>],
      opt_heap = [Options_init, Options_init, Options_init\<lparr>match := Some ''id''\<rparr>],
      val_heap = []\<rparr>"
  by (simp add: ex_products_def ex_shop_def ex_root_def ev)

lemma ex_products_parent_pattern: "map_option fst (getPattern ex_products 1) = Some [''/'', ''products'']"
  unfolding ex_products_val
  apply (subst getPattern.simps, simp add: getPattern_ev)
  apply (subst getPattern.simps, simp add: getPattern_ev Options_init_def)
  done

lemma ex_products_leaf_pattern:
  "map_option fst (getPattern ex_products 2) = Some [''/'', ''products'', ''(?P<id>42)'']"
  unfolding ex_products_val
  apply (subst getPattern.simps, simp add: getPattern_ev)
  apply (subst getPattern.simps, simp add: getPattern_ev)
  apply (subst getPattern.simps, simp add: getPattern_ev Options_init_def)
  done

lemma ex_products_node: "parent (sec_heap ex_products ! 2) = Some 1"
  "priv_options (sec_heap ex_products ! 2) = Some 2"
  "match (opt_heap ex_products ! 2) = Some ''id''"
  "url (sec_heap ex_products ! 2) = ''42''"
  by (simp_all add: ex_products_def ex_shop_def ex_root_def ev)

text \<open>
  Claim C2, as amended. In every store built through the interface, for every node with a
  parent, both calls return, and \<^verbatim>\<open>getPattern()\<close> on the node is \<^verbatim>\<open>getPattern()\<close> on its parent
  with exactly one segment appended: \<^verbatim>\<open>(?P<match>url)\<close> when the node's options declare a match
  name, else the node's url. For \<^verbatim>\<open>root = Section()\<close>, whose url is \<^verbatim>\<open>/\<close> and which declares no
  match name, the leaf of \<^verbatim>\<open>root.add('products').add('42', match='id')\<close> returns
  \<^verbatim>\<open>['/', 'products', '(?P<id>42)']\<close>.
\<close>

theorem getPattern_child:
  assumes "built st" and "n < length (sec_heap st)" and "parent (sec_heap st ! n) = Some p"
  shows "(\<exists>pp st1 st2 opts.
            getPattern st p = Some (pp, st1) \<and>
            priv_options (sec_heap st ! n) = Some opts \<and>
            getPattern st n =
              Some (pp @ [segment (match (opt_heap st ! opts)) (url (sec_heap st ! n))], st2)) \<and>
         map_option fst (getPattern ex_products 2) = Some [''/'', ''products'', ''(?P<id>42)'']"
  using getPattern_parent_segment [OF assms] ex_products_leaf_pattern by (intro conjI)

theorem getPattern_child_witness:
  "map_option fst (getPattern ex_products 1) = Some [''/'', ''products''] \<and>
   map_option fst (getPattern ex_products 2) = Some [''/'', ''products'', ''(?P<id>42)''] \<and>
   (\<exists>pp. map_option fst (getPattern ex_products 1) = Some pp \<and>
         map_option fst (getPattern ex_products 2) = Some (pp @ [''(?P<id>42)'']))"
  using getPattern_child [OF built_ex_products, of 2 1] ex_products_parent_pattern
  by (auto simp: ex_products_node ex_lengths segment_def)

theorem getPattern_example_counterexample:
  "map_option fst (getPattern ex_products 2) = Some [''/'', ''products'', ''(?P<id>42)''] \<and>
   map_option fst (getPattern ex_products 2) \<noteq> Some [''products'', ''(?P<id>42)'']"
  by (simp add: ex_products_leaf_pattern)

lemma ex_forest_vals:
  "Section_init ex_shop ''blog'' None None = (2, ex_forest)"
  "first ex_forest 2 None None = Inr (3, ex_forest_child)"
  "length (sec_heap ex_forest) = 3"
  "parent (sec_heap ex_forest ! 2) = None"
  "parent (sec_heap ex_forest ! 1) = Some 0"
  "parent (sec_heap ex_forest ! 0) = None"
  by (simp_all add: ex_forest_child_def ex_forest_def ex_shop_def ex_root_def ev)

lemma built_ex_forest: "built ex_forest"
  by (rule built_section [OF built_ex_shop ex_forest_vals(1)])

text \<open>
  Claim C10. For every section \<open>s\<close> of a built store, the child that \<^verbatim>\<open>s.add(url, ...)\<close> or
  \<^verbatim>\<open>s.first(...)\<close> creates has \<open>s\<close> itself as its \<^verbatim>\<open>parent\<close>, \<^verbatim>\<open>rootAncestor()\<close> on the child
  returns what it returns on \<open>s\<close>, and on every older node it returns what it did before.
  \<^verbatim>\<open>rootAncestor()\<close> on \<open>s\<close> returns, and what it returns is the root of the tree \<open>s\<close> was built
  into: the node without a parent that the parent links lead to from \<open>s\<close>, and the only
  such node.
\<close>

theorem rootAncestor_built:
  assumes "built st" and "s < length (sec_heap st)"
  shows "(\<forall>u m nm c st'. add st s u m nm = Inr (c, st') \<longrightarrow>
            parent (sec_heap st' ! c) = Some s \<and> rootAncestor st' c = rootAncestor st s \<and>
            (\<forall>n < length (sec_heap st). rootAncestor st' n = rootAncestor st n)) \<and>
         (\<forall>m nm c st'. first st s m nm = Inr (c, st') \<longrightarrow>
            parent (sec_heap st' ! c) = Some s \<and> rootAncestor st' c = rootAncestor st s \<and>
            (\<forall>n < length (sec_heap st). rootAncestor st' n = rootAncestor st n)) \<and>
         (\<exists>r. rootAncestor st s = Some r \<and> ancestor st s r \<and> parent (sec_heap st ! r) = None) \<and>
         (\<forall>r. ancestor st s r \<and> parent (sec_heap st ! r) = None \<longrightarrow> rootAncestor st s = Some r)"
proof -
  from built_inv [OF assms(1)] have wf: "wf_store st" by simp
  have a: "parent (sec_heap st' ! c) = Some s \<and> rootAncestor st' c = rootAncestor st s \<and>
      (\<forall>n < length (sec_heap st). rootAncestor st' n = rootAncestor st n)"
    if "add st s u m nm = Inr (c, st')" for u m nm c st'
  proof -
    note p = add_props [OF wf assms(2) that]
    have old: "rootAncestor st' n = rootAncestor st n" if "n < length (sec_heap st)" for n
      using wf p(2) that by (rule rootAncestor_kept)
    from p(5) have "rootAncestor st' c = rootAncestor st' s" by (rule rootAncestor_child)
    also have "\<dots> = rootAncestor st s" using assms(2) by (rule old)
    finally show ?thesis using p(5) old by simp
  qed
  have f: "parent (sec_heap st' ! c) = Some s \<and> rootAncestor st' c = rootAncestor st s \<and>
      (\<forall>n < length (sec_heap st). rootAncestor st' n = rootAncestor st n)"
    if "first st s m nm = Inr (c, st')" for m nm c st'
  proof -
    note p = first_props [OF wf assms(2) that]
    have old: "rootAncestor st' n = rootAncestor st n" if "n < length (sec_heap st)" for n
      using wf p(2) that by (rule rootAncestor_kept)
    from p(5) have "rootAncestor st' c = rootAncestor st' s" by (rule rootAncestor_child)
    also have "\<dots> = rootAncestor st s" using assms(2) by (rule old)
    finally show ?thesis using p(5) old by simp
  qed
  from rootAncestor_total [OF wf assms(2)]
  have r: "\<exists>r. rootAncestor st s = Some r \<and> ancestor st s r \<and> parent (sec_heap st ! r) = None"
    by blast
  have u: "rootAncestor st s = Some r" if "ancestor st s r \<and> parent (sec_heap st ! r) = None" for r
    using that by (simp add: rootAncestor_ancestor)
  from a f r u show ?thesis by blast
qed

theorem rootAncestor_built_witness:
  "parent (sec_heap ex_forest_child ! 3) = Some 2 \<and>
   rootAncestor ex_forest_child 3 = Some 2 \<and>
   rootAncestor ex_forest 2 = Some 2 \<and>
   rootAncestor ex_forest 1 = Some 0 \<and>
   rootAncestor ex_products 2 = Some 0"
proof -
  have p: "parent (sec_heap ex_products ! 1) = Some 0" "parent (sec_heap ex_products ! 0) = None"
    by (simp_all add: ex_products_val)
  have "ancestor ex_products 2 0"
    by (rule ancestor_parent [OF ex_products_node(1) ancestor_parent [OF p(1) ancestor_self]])
  with rootAncestor_built [OF built_ex_products, of 2] p(2)
  have deep: "rootAncestor ex_products 2 = Some 0" by (simp add: ex_lengths)
  have a2: "ancestor ex_forest 2 2" by (rule ancestor_self)
  have a1: "ancestor ex_forest 1 0"
    by (rule ancestor_parent [OF ex_forest_vals(5) ancestor_self])
  from rootAncestor_built [OF built_ex_forest, of 2] a2 ex_forest_vals
  have "parent (sec_heap ex_forest_child ! 3) = Some 2 \<and> rootAncestor ex_forest_child 3 = Some 2 \<and>
      rootAncestor ex_forest 2 = Some 2"
    by simp
  moreover from rootAncestor_built [OF built_ex_forest, of 1] a1 ex_forest_vals
  have "rootAncestor ex_forest 1 = Some 0" by simp
  ultimately show ?thesis using deep by simp
qed

section \<open>Pattern emission and the enumerator\<close>

lemmas urlPattern_ev = Options_urlPattern_def url_regex_def resolve_redirect_def dispatch_kwargs_def
  getObj_def strip_dots_def startswith_def endswith_def Options_init_def

lemma ex_item_val:
  "ex_item =
     \<lparr>sec_heap =
        [\<lparr>url = ''/'', name = None, parent = None, priv_options = Some 0, children = [1],
            priv_pattern = None, pattern = None\<rparr>,
         \<lparr>url = ''item'', name = Some ''item'', parent = Some 0, priv_options = Some 1,
            children = [], priv_pattern = None, pattern = None\<rparr>],
      opt_heap = [Options_init, Options_init\<lparr>values' := Some 0\<rparr>],
      val_heap =
        [\<lparr>vvalues = ValuesCallable (\<lambda>path. [''1'', ''2'', ''3'']), each = Some (\<lambda>path v. (v, v)),
            asSet = False, sorter = SorterNone, sortWithAlias = True\<rparr>]\<rparr>"
  by (simp add: ex_item_def ex_item0_def ex_values_def ex_root_def ev)

lemma ex_item_urlPattern:
  "map_option (map fst \<circ> fst \<circ> fst) (Section_urlPattern ex_item 1) = Some [''^/item/?$'']"
  unfolding ex_item_val
  apply (simp add: Section_urlPattern_def Section_options_def)
  apply (subst getPattern.simps, simp add: getPattern_ev)
  apply (subst getPattern.simps, simp add: getPattern_ev urlPattern_ev)
  done

lemma Section_urlPattern_length:
  assumes "Section_urlPattern st s = Some (r, st')"
  shows "length (fst r) \<le> 1"
proof -
  from assms obtain pat st2 where
    "r = Options_urlPattern st2 (fst (Section_options st s)) (PatternList pat) (Some s) (name (sec_heap st2 ! s))"
    by (auto simp: Section_urlPattern_def split_beta Option.bind_eq_Some_conv)
  then show ?thesis by (simp only: Options_urlPattern_length)
qed

text \<open>
  Claim C1, as amended. Pattern emission does not consult the enumerator: what
  \<^verbatim>\<open>Options.urlPattern\<close> yields is the same whatever the object's \<open>values\<close> is, it is at most
  one tuple, and so \<^verbatim>\<open>Section.urlPattern\<close>, the per-node emitter that \<^verbatim>\<open>patternList\<close> calls,
  yields at most one tuple for a section. For the section \<^verbatim>\<open>item\<close> under \<^verbatim>\<open>root.add('item')\<close>
  with a \<^verbatim>\<open>Values\<close> over three values attached, it yields exactly one tuple, not three.
\<close>

theorem urlPattern_ignores_values:
  "Options_urlPattern (st\<lparr>opt_heap := (opt_heap st)[self := (opt_heap st ! self)\<lparr>values' := v\<rparr>]\<rparr>)
       self pat sec nm = Options_urlPattern st self pat sec nm \<and>
   length (fst (Options_urlPattern st self pat sec nm)) \<le> 1 \<and>
   (\<forall>r st'. Section_urlPattern st s = Some (r, st') \<longrightarrow> length (fst r) \<le> 1) \<and>
   values' (opt_heap ex_item ! 1) = Some 0 \<and>
   (case vvalues (val_heap ex_item ! 0) of ValuesCallable f \<Rightarrow> f [] | ValuesList l \<Rightarrow> l) =
     [''1'', ''2'', ''3''] \<and>
   map_option (length \<circ> fst \<circ> fst) (Section_urlPattern ex_item 1) = Some 1"
proof -
  from ex_item_urlPattern obtain r st' where r: "Section_urlPattern ex_item 1 = Some (r, st')"
    and "map fst (fst r) = [''^/item/?$'']"
    by auto
  then have "length (fst r) = 1" by (metis length_map length_Cons list.size(3) One_nat_def)
  with r have one: "map_option (length \<circ> fst \<circ> fst) (Section_urlPattern ex_item 1) = Some 1"
    by simp
  have v: "values' (opt_heap ex_item ! 1) = Some 0"
    "(case vvalues (val_heap ex_item ! 0) of ValuesCallable f \<Rightarrow> f [] | ValuesList l \<Rightarrow> l) =
       [''1'', ''2'', ''3'']"
    by (simp_all add: ex_item_val)
  from one v Options_urlPattern_values Options_urlPattern_length Section_urlPattern_length
  show ?thesis by blast
qed

theorem urlPattern_values_counterexample:
  "values' (opt_heap ex_item ! 1) = Some 0 \<and>
   (case vvalues (val_heap ex_item ! 0) of ValuesCallable f \<Rightarrow> f [] | ValuesList l \<Rightarrow> l) = [''1'', ''2'', ''3''] \<and>
   fst (patternList ex_item 1) = ([], Some NameError) \<and>
   map_option (map fst \<circ> fst \<circ> fst) (Section_urlPattern ex_item 1) = Some [''^/item/?$'']"
proof (intro conjI)
  show "values' (opt_heap ex_item ! 1) = Some 0"
    by (simp add: ex_item_val)
  show "(case vvalues (val_heap ex_item ! 0) of ValuesCallable f \<Rightarrow> f [] | ValuesList l \<Rightarrow> l) =
      [''1'', ''2'', ''3'']"
    by (simp add: ex_item_val)
  show "fst (patternList ex_item 1) = ([], Some NameError)"
    by (simp add: patternList_def global_name_def module_names_def)
  show "map_option (map fst \<circ> fst \<circ> fst) (Section_urlPattern ex_item 1) = Some [''^/item/?$'']"
    by (rule ex_item_urlPattern)
qed

theorem urlPattern_ignores_values_witness:
  "Options_urlPattern
     (ex_item\<lparr>opt_heap := (opt_heap ex_item)[1 := (opt_heap ex_item ! 1)\<lparr>values' := None\<rparr>]\<rparr>)
     1 (PatternList [''/'', ''item'']) (Some 1) (Some ''item'') =
   Options_urlPattern ex_item 1 (PatternList [''/'', ''item'']) (Some 1) (Some ''item'') \<and>
   length (fst (Options_urlPattern ex_item 1 (PatternList [''/'', ''item'']) (Some 1) (Some ''item''))) \<le> 1 \<and>
   map_option (length \<circ> fst \<circ> fst) (Section_urlPattern ex_item 1) = Some 1"
  using urlPattern_ignores_values [of ex_item 1 None "PatternList [''/'', ''item'']" "Some 1" "Some ''item''" 1]
  by simp

section \<open>Cloning options\<close>

text \<open>
  Claim C4, as amended. \<^verbatim>\<open>clone(**kwargs)\<close> with known keywords returns a new \<^verbatim>\<open>Options\<close> object
  whose specified fields equal the overrides and whose unspecified fields equal the
  source's current values; the source and every other object are left as they were, and
  assigning fields of the clone (\<^verbatim>\<open>update\<close>) never changes the source. The copy is shallow: an
  unspecified \<open>values\<close> is the source's own \<^verbatim>\<open>Values\<close> object, shared by both, so setting
  \<^verbatim>\<open>asSet\<close> on that object through the clone changes what the source's \<open>values\<close> shows.
\<close>

theorem clone_fields:
  assumes "self < length (opt_heap st)" and "kw_other kw = []"
  shows "\<exists>new st'. clone st self kw = Inr (new, st') \<and> new = length (opt_heap st) \<and> new \<noteq> self \<and>
     active (opt_heap st' ! new) = override (kw_active kw) (active (opt_heap st ! self)) \<and>
     exists (opt_heap st' ! new) = override (kw_exists kw) (exists (opt_heap st ! self)) \<and>
     display (opt_heap st' ! new) = override (kw_display kw) (display (opt_heap st ! self)) \<and>
     showBase (opt_heap st' ! new) = override (kw_showBase kw) (showBase (opt_heap st ! self)) \<and>
     alias' (opt_heap st' ! new) = override (kw_alias kw) (alias' (opt_heap st ! self)) \<and>
     match (opt_heap st' ! new) = override (kw_match kw) (match (opt_heap st ! self)) \<and>
     values' (opt_heap st' ! new) = override (kw_values kw) (values' (opt_heap st ! self)) \<and>
     kls (opt_heap st' ! new) = override (kw_kls kw) (kls (opt_heap st ! self)) \<and>
     module (opt_heap st' ! new) = override (kw_module kw) (module (opt_heap st ! self)) \<and>
     target (opt_heap st' ! new) = override (kw_target kw) (target (opt_heap st ! self)) \<and>
     redirect (opt_heap st' ! new) = override (kw_redirect kw) (redirect (opt_heap st ! self)) \<and>
     condition (opt_heap st' ! new) = override (kw_condition kw) (condition (opt_heap st ! self)) \<and>
     extraContext (opt_heap st' ! new) = override (kw_extraContext kw) (extraContext (opt_heap st ! self)) \<and>
     opt_heap st' ! self = opt_heap st ! self \<and>
     sec_heap st' = sec_heap st \<and> val_heap st' = val_heap st \<and>
     (\<forall>kw'. opt_heap (update st' new kw') ! self = opt_heap st ! self) \<and>
     (kw_values kw = None \<longrightarrow> values' (opt_heap st' ! new) = values' (opt_heap st ! self)) \<and>
     (\<forall>v b. kw_values kw = None \<and> values' (opt_heap st ! self) = Some v \<and> v < length (val_heap st) \<longrightarrow>
        asSet (val_heap (Values_set_asSet st' (the (values' (opt_heap st' ! new))) b) !
                 the (values' (opt_heap st' ! self))) = b)"
  using assms
  by (auto simp: clone_ok apply_kwargs_def update_def nth_append override_def Values_set_asSet_def)

lemma ex_source_val:
  "ex_source =
     \<lparr>sec_heap = [], opt_heap = [Options_init\<lparr>values' := Some 0\<rparr>],
      val_heap = [\<lparr>vvalues = ValuesList [''1'', ''2'', ''3''], each = None, asSet = False,
                   sorter = SorterNone, sortWithAlias = True\<rparr>]\<rparr>"
  by (simp add: ex_source_def ev)

lemma ex_cloned_val:
  "ex_cloned =
     \<lparr>sec_heap = [], opt_heap = [Options_init\<lparr>values' := Some 0\<rparr>, Options_init\<lparr>values' := Some 0\<rparr>],
      val_heap = [\<lparr>vvalues = ValuesList [''1'', ''2'', ''3''], each = None, asSet = False,
                   sorter = SorterNone, sortWithAlias = True\<rparr>]\<rparr>"
  by (simp add: ex_cloned_def ex_source_val ev)

lemma ex_clone: "clone ex_source 0 no_kwargs = Inr (1, ex_cloned)"
  by (simp add: ex_cloned_def ex_source_val ev)

lemma ex_cloned_match_val:
  "clone ex_source 0 (match_kwargs (Some ''id'')) = Inr (1, ex_cloned_match)"
  "kw_other (match_kwargs (Some ''id'')) = []"
  "kw_match (match_kwargs (Some ''id'')) = Some (Some ''id'')"
  "kw_values (match_kwargs (Some ''id'')) = None"
  "kw_active (match_kwargs (Some ''id'')) = None"
  by (simp_all add: ex_cloned_match_def ex_source_val ev)

theorem clone_fields_witness:
  "clone ex_source 0 (match_kwargs (Some ''id'')) = Inr (1, ex_cloned_match) \<and>
   match (opt_heap ex_cloned_match ! 1) = Some ''id'' \<and>
   match (opt_heap ex_source ! 0) = None \<and>
   active (opt_heap ex_cloned_match ! 1) = active (opt_heap ex_source ! 0) \<and>
   values' (opt_heap ex_cloned_match ! 1) = values' (opt_heap ex_source ! 0) \<and>
   opt_heap ex_cloned_match ! 0 = opt_heap ex_source ! 0 \<and>
   opt_heap (update ex_cloned_match 1 (no_kwargs\<lparr>kw_active := Some False\<rparr>)) ! 0 = opt_heap ex_source ! 0 \<and>
   asSet (val_heap (Values_set_asSet ex_cloned_match (the (values' (opt_heap ex_cloned_match ! 1))) True) !
            the (values' (opt_heap ex_cloned_match ! 0))) = True"
proof -
  have s: "(0::nat) < length (opt_heap ex_source)" "values' (opt_heap ex_source ! 0) = Some 0"
    "(0::nat) < length (val_heap ex_source)" "match (opt_heap ex_source ! 0) = None"
    by (simp_all add: ex_source_val Options_init_def)
  from clone_fields [OF s(1) ex_cloned_match_val(2)] ex_cloned_match_val s
  show ?thesis by (auto simp: override_def)
qed

theorem clone_shares_values_counterexample:
  "clone ex_source 0 no_kwargs = Inr (1, ex_cloned) \<and>
   values' (opt_heap ex_cloned ! 0) = Some 0 \<and>
   values' (opt_heap ex_cloned ! 1) = Some 0 \<and>
   asSet (val_heap ex_cloned ! the (values' (opt_heap ex_cloned ! 0))) = False \<and>
   asSet (val_heap (Values_set_asSet ex_cloned (the (values' (opt_heap ex_cloned ! 1))) True) !
            the (values' (opt_heap ex_cloned ! 0))) = True"
  by (simp add: ex_clone) (simp add: ex_cloned_val Values_set_asSet_def)

section \<open>Resolving the target\<close>

lemma getObj_kls_object: "kls opts = PObj obj \<Longrightarrow> getObj opts = Inr (PObj obj)"
  by (simp add: getObj_def)

lemma getObj_module_none:
  "kls opts = PStr k \<Longrightarrow> module opts = PNone \<Longrightarrow>
     getObj opts = (if strip_dots k = [] then Inr PNone else Inr (PStr (strip_dots k)))"
  by (simp add: getObj_def)

lemma getObj_module_string:
  "kls opts = PStr k \<Longrightarrow> module opts = PStr m \<Longrightarrow> getObj opts = Inr (PStr (m @ ''.'' @ k))"
  by (simp add: getObj_def)

lemma getObj_module_object:
  "kls opts = PStr k \<Longrightarrow> module opts = PObj m \<Longrightarrow>
     getObj opts = (case getattr_walk m (split CHR ''.'' (strip_dots k)) of
                      Inl e \<Rightarrow> Inl e | Inr obj \<Rightarrow> Inr (PObj obj))"
  by (simp add: getObj_def)

text \<open>
  Claim C6 at \<^verbatim>\<open>Options(kls='.Views', module='pkg')\<close>: the stripped \<open>kls\<close> is \<^verbatim>\<open>Views\<close>, and the
  claim gives \<^verbatim>\<open>pkg.Views\<close>; \<^verbatim>\<open>getObj\<close> returns \<^verbatim>\<open>pkg..Views\<close>, formatted from the unstripped
  attribute. With \<open>module\<close> \<^verbatim>\<open>None\<close> or an object, the stripped \<open>kls\<close> is what is used.
\<close>

theorem getObj_string_module_keeps_dots:
  "strip_dots ''.Views'' = ''Views'' \<and>
   getObj (Options_init\<lparr>kls := PStr ''.Views'', module := PStr ''pkg''\<rparr>) = Inr (PStr ''pkg..Views'') \<and>
   getObj (Options_init\<lparr>kls := PStr ''.Views'', module := PNone\<rparr>) = Inr (PStr ''Views'') \<and>
   getObj (Options_init\<lparr>kls := PStr ''.Views'', module := PObj (PyObj [(''Views'', PyObj [])])\<rparr>) =
     Inr (PObj (PyObj []))"
  by (simp add: getObj_def strip_dots_def startswith_def endswith_def Options_init_def)

section \<open>The pattern string\<close>





section \<open>Inactive sections\<close>

lemma patternList_raises: "patternList st self = (([], Some NameError), st)"
  by (simp add: patternList_def global_name_def module_names_def)

lemma getInfo_inactive:
  assumes "priv_options (sec_heap st ! self) = Some opts"
    and "\<not> (active (opt_heap st ! opts) \<and> exists (opt_heap st ! opts))"
  shows "getInfo st self path parentUrl parentSelected gen_in = Some (([], None), st)"
  using assms by (auto simp: getInfo_def Section_options_def)

lemma ex_hidden_val:
  "ex_hidden =
     \<lparr>sec_heap =
        [\<lparr>url = ''/'', name = None, parent = None, priv_options = Some 0, children = [1],
            priv_pattern = None, pattern = None\<rparr>,
         \<lparr>url = ''hidden'', name = None, parent = Some 0, priv_options = Some 1,
            children = [], priv_pattern = None, pattern = None\<rparr>],
      opt_heap = [Options_init, Options_init\<lparr>active := False\<rparr>],
      val_heap = []\<rparr>"
  by (simp add: ex_hidden_def ex_hidden0_def ex_root_def ev)

lemma ex_hidden_urlPattern: "map_option fst (Section_urlPattern ex_hidden 1) = Some ([], None)"
  unfolding ex_hidden_val
  apply (simp add: Section_urlPattern_def Section_options_def)
  apply (subst getPattern.simps, simp add: getPattern_ev)
  apply (subst getPattern.simps, simp add: getPattern_ev urlPattern_ev)
  done

lemma ex_hidden_getInfo: "map_option fst (getInfo ex_hidden 1 [''hidden''] None True None) = Some ([], None)"
  by (simp add: getInfo_inactive [where opts = 1] ex_hidden_val)

text \<open>
  Claim C5 at a section with \<^verbatim>\<open>active=False\<close>: iterating \<^verbatim>\<open>patternList()\<close> raises \<^verbatim>\<open>NameError\<close>
  instead of ending with zero entries, while \<^verbatim>\<open>Section.urlPattern\<close> and \<^verbatim>\<open>getInfo\<close> both end
  normally with nothing yielded.
\<close>

theorem patternList_inactive_raises:
  "active (opt_heap ex_hidden ! 1) = False \<and>
   fst (patternList ex_hidden 1) = ([], Some NameError) \<and>
   map_option fst (Section_urlPattern ex_hidden 1) = Some ([], None) \<and>
   map_option fst (getInfo ex_hidden 1 [''hidden''] None True None) = Some ([], None)"
proof (intro conjI)
  show "active (opt_heap ex_hidden ! 1) = False" by (simp add: ex_hidden_val)
  show "fst (patternList ex_hidden 1) = ([], Some NameError)" by (simp add: patternList_raises)
  show "map_option fst (Section_urlPattern ex_hidden 1) = Some ([], None)" by (rule ex_hidden_urlPattern)
  show "map_option fst (getInfo ex_hidden 1 [''hidden''] None True None) = Some ([], None)"
    by (rule ex_hidden_getInfo)
qed

section \<open>The pattern cache\<close>

lemma getPattern_leaves_priv_pattern:
  assumes "built st" and "n < length (sec_heap st)"
  shows "\<exists>pat st'. getPattern st n = Some (pat, st') \<and> built st' \<and> priv_pattern (sec_heap st' ! n) = None"
proof -
  from built_inv [OF assms(1)] have wf: "wf_store st" by simp
  from getPattern_total [OF wf assms(2)]
  obtain pat st' where g: "getPattern st n = Some (pat, st')" and wf': "wf_store st'"
    and t: "same_tree st st'"
    by blast
  from t assms(2) have "n < length (sec_heap st')" by (simp add: same_tree_def)
  from wf_storeD [OF wf' this] have "priv_pattern (sec_heap st' ! n) = None" by (simp add: node_ok_def)
  moreover have "built st'" using assms g by (rule built_getPattern)
  ultimately show ?thesis using g by blast
qed

lemma ex_root_val:
  "ex_root = \<lparr>sec_heap = [\<lparr>url = ''/'', name = None, parent = None, priv_options = None, children = [],
            priv_pattern = None, pattern = None\<rparr>], opt_heap = [], val_heap = []\<rparr>"
  by (simp add: ex_root_def ev)

lemma ex_root_getPattern:
  "getPattern ex_root 0 =
     Some ([''/''],
           \<lparr>sec_heap = [\<lparr>url = ''/'', name = None, parent = None, priv_options = Some 0, children = [],
            priv_pattern = None, pattern = Some [''/'']\<rparr>], opt_heap = [Options_init], val_heap = []\<rparr>)"
  unfolding ex_root_val
  by (subst getPattern.simps, simp add: getPattern_ev Options_init_def)

text \<open>
  Claim C8 at \<^verbatim>\<open>root = Section()\<close>: after \<^verbatim>\<open>root.getPattern()\<close> has returned \<^verbatim>\<open>['/']\<close>, the
  node's \<^verbatim>\<open>_pattern\<close> is still \<^verbatim>\<open>None\<close> (the list went to the attribute \<^verbatim>\<open>pattern\<close>), so the next
  call computes again: after \<^verbatim>\<open>root.base(match='id')\<close> it returns \<^verbatim>\<open>['(?P<id>/)']\<close>, not the
  stored list.
\<close>

theorem getPattern_not_cached:
  "map_option fst (getPattern ex_root 0) = Some [''/''] \<and>
   map_option (\<lambda>(pat, st). priv_pattern (sec_heap st ! 0)) (getPattern ex_root 0) = Some None \<and>
   map_option (\<lambda>(pat, st). pattern (sec_heap st ! 0)) (getPattern ex_root 0) = Some (Some [''/'']) \<and>
   map_option fst
     (Option.bind (getPattern ex_root 0)
        (\<lambda>(pat, st). getPattern (snd (base st 0 (no_kwargs\<lparr>kw_match := Some (Some ''id'')\<rparr>))) 0)) =
     Some [''(?P<id>/)'']"
  apply (simp add: ex_root_getPattern)
  apply (simp add: ev)
  apply (subst getPattern.simps, simp add: getPattern_ev)
  done

section \<open>The hierarchical menu\<close>

lemma heirarchial_showBase_false:
  assumes "priv_options (sec_heap st ! s) = Some opts"
    and "\<not> showBase (opt_heap st ! opts)"
    and "children (sec_heap st ! s) \<noteq> []"
  shows "heirarchial st m (Some s) path_in parentUrl_in parentSelected =
     Some (([], Some AttributeError),
           (case parentUrl_in of None \<Rightarrow> [] | Some p \<Rightarrow> p) @
             (if url (sec_heap st ! s) \<noteq> [] then [url (sec_heap st ! s)] else []),
           st)"
  using assms
  by (simp add: heirarchial_def Section_options_def Let_def Menu_attribute_def Menu_methods_def)

lemma ex_group_val:
  "ex_group =
     \<lparr>sec_heap =
        [\<lparr>url = ''/'', name = None, parent = None, priv_options = Some 0, children = [1],
            priv_pattern = None, pattern = None\<rparr>,
         \<lparr>url = ''about'', name = None, parent = Some 0, priv_options = Some 1,
            children = [], priv_pattern = None, pattern = None\<rparr>],
      opt_heap = [Options_init\<lparr>showBase := False\<rparr>, Options_init\<lparr>showBase := False\<rparr>],
      val_heap = []\<rparr>"
  by (simp add: ex_group_def ex_group0_def ex_root_def ev)

lemma ex_group_child_info:
  "map_option fst (getInfo ex_group 1 [''about''] (Some [''/'']) False (Some Gen_heirarchial)) =
     Some ([(''about'', [''/'', ''about''], ''About'', [], ChildrenThunk Gen_heirarchial [] [''/'', ''about''] [] False, 1)], None)"
  unfolding ex_group_val
  apply (simp add: getInfo_def Section_options_def Options_init_def)
  apply (subst Section_show.simps, simp add: Section_options_def)
  apply (subst Section_show.simps, simp add: Section_options_def Options_show_def Options_init_def
      get_def determineSelection_def capitalize_def upper_def lower_def Let_def)
  done

text \<open>
  Claim C9 at a root with \<^verbatim>\<open>showBase=False\<close> and one child: \<^verbatim>\<open>heirarchial()\<close> folds the root's
  url into \<^verbatim>\<open>parentUrl\<close> and then raises \<^verbatim>\<open>AttributeError\<close> with nothing yielded, although the
  child's own \<^verbatim>\<open>getInfo\<close> would yield one tuple.
\<close>

theorem heirarchial_showBase_false_raises:
  "showBase (opt_heap ex_group ! 0) = False \<and> children (sec_heap ex_group ! 0) = [1] \<and>
   map_option (\<lambda>(infos, parentUrl, st). (infos, parentUrl)) (heirarchial ex_group ex_menu None None None False) =
     Some (([], Some AttributeError), [''/'']) \<and>
   map_option (length \<circ> fst \<circ> fst)
     (getInfo ex_group 1 [''about''] (Some [''/'']) False (Some Gen_heirarchial)) = Some 1"
proof (intro conjI)
  show "showBase (opt_heap ex_group ! 0) = False" "children (sec_heap ex_group ! 0) = [1]"
    by (simp_all add: ex_group_val)
  show "map_option (\<lambda>(infos, parentUrl, st). (infos, parentUrl)) (heirarchial ex_group ex_menu None None None False) =
     Some (([], Some AttributeError), [''/''])"
    by (simp add: ex_group_val ex_menu_def heirarchial_def Section_options_def Let_def Menu_attribute_def
        Menu_methods_def)
  from ex_group_child_info
  show "map_option (length \<circ> fst \<circ> fst)
     (getInfo ex_group 1 [''about''] (Some [''/'']) False (Some Gen_heirarchial)) = Some 1"
    by auto
qed

end
